theory Spec2Isabelle
  imports Main "HOL-Library.Word"
begin

unbundle bit_operations_syntax

section \<open>Machine integers\<close>

text \<open>
  The simulator computes in C \<^verbatim>\<open>int32\<close> and \<^verbatim>\<open>uint32\<close>. Both are 32-bit words
  here; the signedness lives in the operation, as it does in the compiled code:
  \<open>+\<close>, \<open>-\<close>, \<open>*\<close> wrap, \<open>div\<close> and \<open>mod\<close> and \<open><\<close> are the unsigned ones,
  \<open><s\<close> and \<open>\<le>s\<close> compare as two's complement, \<open>sdiv32\<close> is the truncating signed
  division and \<open>signed_drop_bit\<close> the arithmetic right shift of an \<^verbatim>\<open>int32\<close>.
  Octal constants of the source are written in hexadecimal: 0777777 is 0x3FFFF.
\<close>

type_synonym int32 = "32 word"

definition sdiv32 :: "int32 \<Rightarrow> int32 \<Rightarrow> int32" where
  "sdiv32 a b = word_of_int (sgn (sint a) * sgn (sint b) * (\<bar>sint a\<bar> div \<bar>sint b\<bar>))"

definition ABS :: "int32 \<Rightarrow> int32" where
  "ABS x = (if x <s 0 then - x else x)"

definition b2i :: "bool \<Rightarrow> int32" where
  "b2i b = (if b then 1 else 0)"

section \<open>Constants of pdp1\_dt.c\<close>

definition DT_EZLIN :: int32 where "DT_EZLIN = 36000"
definition DT_HTLIN :: int32 where "DT_HTLIN = 30"
definition DT_BLKLN :: int32 where "DT_BLKLN = 6"
definition DT_CSMLN :: int32 where "DT_CSMLN = 24"
definition DT_WSIZE :: int32 where "DT_WSIZE = 6"
definition DT_HTWRD :: int32 where "DT_HTWRD = sdiv32 DT_HTLIN DT_WSIZE"
definition DT_BLKWD :: int32 where "DT_BLKWD = sdiv32 DT_BLKLN DT_WSIZE"
definition DT_CSMWD :: int32 where "DT_CSMWD = sdiv32 DT_CSMLN DT_WSIZE"

definition D18_BSIZE :: int32 where "D18_BSIZE = 256"
definition D18_TSIZE :: int32 where "D18_TSIZE = 578"
definition D18_LPERB :: int32 where "D18_LPERB = DT_HTLIN + (D18_BSIZE * DT_WSIZE) + DT_HTLIN"
definition D18_FWDEZ :: int32 where "D18_FWDEZ = DT_EZLIN + (D18_LPERB * D18_TSIZE)"
definition D18_CAPAC :: int32 where "D18_CAPAC = D18_TSIZE * D18_BSIZE"

definition D8_BSIZE :: int32 where "D8_BSIZE = 86"
definition D8_TSIZE :: int32 where "D8_TSIZE = 1474"
definition D8_LPERB :: int32 where "D8_LPERB = DT_HTLIN + (D8_BSIZE * DT_WSIZE) + DT_HTLIN"
definition D8_FWDEZ :: int32 where "D8_FWDEZ = DT_EZLIN + (D8_LPERB * D8_TSIZE)"
definition D8_CAPAC :: int32 where "D8_CAPAC = D8_TSIZE * D8_BSIZE"

text \<open>Status register A.\<close>

definition DTA_V_UNIT :: nat where "DTA_V_UNIT = 12"
definition DTA_M_UNIT :: int32 where "DTA_M_UNIT = 0xF"
definition DTA_UNIT :: int32 where "DTA_UNIT = push_bit DTA_V_UNIT DTA_M_UNIT"
definition DTA_V_MOT :: nat where "DTA_V_MOT = 4"
definition DTA_V_FNC :: nat where "DTA_V_FNC = 0"
definition DTA_M_FNC :: int32 where "DTA_M_FNC = 0x7"
definition FNC_MOVE :: int32 where "FNC_MOVE = 0"
definition FNC_SRCH :: int32 where "FNC_SRCH = 1"
definition FNC_READ :: int32 where "FNC_READ = 2"
definition FNC_WRIT :: int32 where "FNC_WRIT = 3"
definition FNC_RALL :: int32 where "FNC_RALL = 5"
definition FNC_WALL :: int32 where "FNC_WALL = 6"
definition FNC_WMRK :: int32 where "FNC_WMRK = 7"
definition DTA_STSTP :: int32 where "DTA_STSTP = push_bit (DTA_V_MOT + 1) 1"
definition DTA_FWDRV :: int32 where "DTA_FWDRV = push_bit DTA_V_MOT 1"
definition DTA_RW :: int32 where "DTA_RW = 0x3F"

text \<open>The Type 550 unit map: unit 8 is drive 0, and -1 marks an invalid selection.\<close>

definition map_unit :: "int32 list" where
  "map_unit = [-1, 1, 2, 3, 4, 5, 6, 7, 0, -1, -1, -1, -1, -1, -1, -1]"

definition DTA_GETUNIT :: "int32 \<Rightarrow> int32" where
  "DTA_GETUNIT x = map_unit ! unat (signed_drop_bit DTA_V_UNIT x AND DTA_M_UNIT)"

definition DTA_GETFNC :: "int32 \<Rightarrow> int32" where
  "DTA_GETFNC x = signed_drop_bit DTA_V_FNC x AND DTA_M_FNC"

text \<open>Status register B.\<close>

definition DTB_DTF :: int32 where "DTB_DTF = push_bit 17 1"
definition DTB_BEF :: int32 where "DTB_BEF = push_bit 16 1"
definition DTB_ERF :: int32 where "DTB_ERF = push_bit 15 1"
definition DTB_END :: int32 where "DTB_END = push_bit 14 1"
definition DTB_TIM :: int32 where "DTB_TIM = push_bit 13 1"
definition DTB_REV :: int32 where "DTB_REV = push_bit 12 1"
definition DTB_GO :: int32 where "DTB_GO = push_bit 11 1"
definition DTB_MRK :: int32 where "DTB_MRK = push_bit 10 1"
definition DTB_SEL :: int32 where "DTB_SEL = push_bit 9 1"
definition DTB_ALLERR :: int32 where "DTB_ALLERR = DTB_END OR DTB_TIM OR DTB_MRK OR DTB_SEL"

text \<open>The layered unit state: three 6-bit slots, each a motion and a function.\<close>

definition DTS_V_MOT :: nat where "DTS_V_MOT = 3"
definition DTS_M_MOT :: int32 where "DTS_M_MOT = 0x7"
definition DTS_STOP :: int32 where "DTS_STOP = 0"
definition DTS_DECF :: int32 where "DTS_DECF = 2"
definition DTS_DECR :: int32 where "DTS_DECR = 3"
definition DTS_ACCF :: int32 where "DTS_ACCF = 4"
definition DTS_ACCR :: int32 where "DTS_ACCR = 5"
definition DTS_ATSF :: int32 where "DTS_ATSF = 6"
definition DTS_ATSR :: int32 where "DTS_ATSR = 7"
definition DTS_DIR :: int32 where "DTS_DIR = 1"
definition DTS_V_FNC :: nat where "DTS_V_FNC = 0"
definition DTS_M_FNC :: int32 where "DTS_M_FNC = 0x7"
definition DTS_OFR :: int32 where "DTS_OFR = 7"
definition DTS_V_2ND :: nat where "DTS_V_2ND = 6"
definition DTS_V_3RD :: nat where "DTS_V_3RD = DTS_V_2ND + DTS_V_2ND"

definition DTS_GETMOT :: "int32 \<Rightarrow> int32" where
  "DTS_GETMOT x = signed_drop_bit DTS_V_MOT x AND DTS_M_MOT"

definition DTS_GETFNC :: "int32 \<Rightarrow> int32" where
  "DTS_GETFNC x = signed_drop_bit DTS_V_FNC x AND DTS_M_FNC"

definition DTS_STA :: "int32 \<Rightarrow> int32 \<Rightarrow> int32" where
  "DTS_STA y z = push_bit DTS_V_MOT y OR push_bit DTS_V_FNC z"

definition DTS_NXTSTA :: "int32 \<Rightarrow> int32" where
  "DTS_NXTSTA x = signed_drop_bit DTS_V_2ND x"

definition DTO_SOB :: int32 where "DTO_SOB = 2"

text \<open>
  Modelled from the spec: \<^verbatim>\<open>pdp1_defs.h\<close> is not among the sources. \<open>DMASK\<close> is the
  mask of the 18-bit data word (the spec's ``low 18 bits'').
\<close>

definition DMASK :: int32 where "DMASK = 0x3FFFF"

section \<open>Units and controller\<close>

text \<open>
  A \<^verbatim>\<open>UNIT\<close> of the simulator, with the fields the DECtape code uses. The bit positions
  of the flag word (\<^verbatim>\<open>UNIT_ATT\<close>, \<^verbatim>\<open>UNIT_DIS\<close>, \<^verbatim>\<open>UNIT_V_UF\<close>) are declared in a header
  outside the sources, so each mask test of the code is one boolean field:
  \<open>u_att\<close> is \<^verbatim>\<open>flags & UNIT_ATT\<close>, \<open>u_dis\<close> is \<^verbatim>\<open>flags & UNIT_DIS\<close>, \<open>u_wlk\<close> is
  \<^verbatim>\<open>flags & UNIT_WLK\<close>, \<open>u_8fmt\<close> is \<^verbatim>\<open>flags & UNIT_8FMT\<close>. \<open>STATE\<close> is \<^verbatim>\<open>u3\<close> and
  \<open>LASTT\<close> is \<^verbatim>\<open>u4\<close>. \<open>filebuf\<close> is the buffered tape image; a read or write outside
  it is a fault. \<open>timer\<close> is the unit's entry in the simulator's event queue: the time
  at which its service routine is due, if any.
\<close>

record UNIT =
  u_att :: bool
  u_dis :: bool
  u_wlk :: bool
  u_8fmt :: bool
  pos :: int32
  STATE :: int32
  LASTT :: int32
  filebuf :: "int32 list"
  hwmark :: int32
  timer :: "int32 option"

text \<open>
  The controller: the globals of the file, the eight units (\<open>units s k\<close> is
  \<^verbatim>\<open>dt_unit[k]\<close>; only 0..7 are ever addressed), and what the code reads from its
  environment: \<open>now\<close> is the value of \<^verbatim>\<open>sim_grtime ()\<close>, \<open>dev_dis\<close> is
  \<^verbatim>\<open>dt_dev.flags & DEV_DIS\<close>, \<open>stop_reason\<close> is \<^verbatim>\<open>stop_inst << IOT_V_REASON\<close>, and
  \<open>sbs_rq\<close> is the bit \<^verbatim>\<open>SB_RQ\<close> of \<^verbatim>\<open>sbs\<close>.
\<close>

record dt_state =
  dtsa :: int32
  dtsb :: int32
  dtdb :: int32
  dt_ltime :: int32
  dt_actime :: int32
  dt_dctime :: int32
  dt_substate :: int32
  sbs_rq :: bool
  units :: "nat \<Rightarrow> UNIT"
  now :: int32
  dev_dis :: bool
  stop_reason :: int32

definition upd_unit :: "dt_state \<Rightarrow> nat \<Rightarrow> (UNIT \<Rightarrow> UNIT) \<Rightarrow> dt_state" where
  "upd_unit s k f = s\<lparr>units := (units s)(k := f (units s k))\<rparr>"

text \<open>Per unit geometry.\<close>

definition DTU_BSIZE :: "UNIT \<Rightarrow> int32" where
  "DTU_BSIZE u = (if u_8fmt u then D8_BSIZE else D18_BSIZE)"
definition DTU_TSIZE :: "UNIT \<Rightarrow> int32" where
  "DTU_TSIZE u = (if u_8fmt u then D8_TSIZE else D18_TSIZE)"
definition DTU_LPERB :: "UNIT \<Rightarrow> int32" where
  "DTU_LPERB u = (if u_8fmt u then D8_LPERB else D18_LPERB)"
definition DTU_FWDEZ :: "UNIT \<Rightarrow> int32" where
  "DTU_FWDEZ u = (if u_8fmt u then D8_FWDEZ else D18_FWDEZ)"
definition DTU_CAPAC :: "UNIT \<Rightarrow> int32" where
  "DTU_CAPAC u = (if u_8fmt u then D8_CAPAC else D18_CAPAC)"

definition DT_LIN2BL :: "int32 \<Rightarrow> UNIT \<Rightarrow> int32" where
  "DT_LIN2BL p u = (p - DT_EZLIN) div DTU_LPERB u"
definition DT_LIN2OF :: "int32 \<Rightarrow> UNIT \<Rightarrow> int32" where
  "DT_LIN2OF p u = (p - DT_EZLIN) mod DTU_LPERB u"
definition DT_LIN2WD :: "int32 \<Rightarrow> UNIT \<Rightarrow> int32" where
  "DT_LIN2WD p u = (DT_LIN2OF p u - DT_HTLIN) div DT_WSIZE"
definition DT_BLK2LN :: "int32 \<Rightarrow> UNIT \<Rightarrow> int32" where
  "DT_BLK2LN p u = (p * DTU_LPERB u) + DT_EZLIN"
definition DT_QREZ :: "UNIT \<Rightarrow> bool" where
  "DT_QREZ u = (pos u < DT_EZLIN)"
definition DT_QFEZ :: "UNIT \<Rightarrow> bool" where
  "DT_QFEZ u = (pos u \<ge> DTU_FWDEZ u)"
definition DT_QEZ :: "UNIT \<Rightarrow> bool" where
  "DT_QEZ u = (DT_QREZ u \<or> DT_QFEZ u)"

definition DT_UPDINT :: "dt_state \<Rightarrow> dt_state" where
  "DT_UPDINT s = (if dtsb s AND (DTB_DTF OR DTB_BEF OR DTB_ERF) \<noteq> 0 then s\<lparr>sbs_rq := True\<rparr> else s)"

definition DTS_SETSTA :: "dt_state \<Rightarrow> nat \<Rightarrow> int32 \<Rightarrow> int32 \<Rightarrow> dt_state" where
  "DTS_SETSTA s k y z = upd_unit s k (\<lambda>u. u\<lparr>STATE := DTS_STA y z\<rparr>)"

definition DTS_SET2ND :: "dt_state \<Rightarrow> nat \<Rightarrow> int32 \<Rightarrow> int32 \<Rightarrow> dt_state" where
  "DTS_SET2ND s k y z =
     upd_unit s k (\<lambda>u. u\<lparr>STATE := (STATE u AND 0x3F) OR push_bit DTS_V_2ND (DTS_STA y z)\<rparr>)"

definition DTS_SET3RD :: "dt_state \<Rightarrow> nat \<Rightarrow> int32 \<Rightarrow> int32 \<Rightarrow> dt_state" where
  "DTS_SET3RD s k y z =
     upd_unit s k (\<lambda>u. u\<lparr>STATE := (STATE u AND 0xFFF) OR push_bit DTS_V_3RD (DTS_STA y z)\<rparr>)"

section \<open>The simulator services the code calls\<close>

text \<open>
  Modelled from the spec: the event scheduler and \<^verbatim>\<open>detach_unit\<close> are functions of the
  simulator core (\<^verbatim>\<open>scp.c\<close>), which is not among the sources. The spec's scheduler
  contract: \<open>now()\<close> is the current tick, \<open>arm(unit, delay)\<close> places a one-shot
  callback \<open>delay\<close> ticks in the future, \<open>cancel(unit)\<close> removes it, and at most one
  timer is armed per unit. Detaching a unit clears its attached flag.
\<close>

definition sim_grtime :: "dt_state \<Rightarrow> int32" where
  "sim_grtime s = now s"

definition sim_cancel :: "dt_state \<Rightarrow> nat \<Rightarrow> dt_state" where
  "sim_cancel s k = upd_unit s k (\<lambda>u. u\<lparr>timer := None\<rparr>)"

definition sim_activate :: "dt_state \<Rightarrow> nat \<Rightarrow> int32 \<Rightarrow> dt_state" where
  "sim_activate s k d = upd_unit s k (\<lambda>u. u\<lparr>timer := Some (now s + d)\<rparr>)"


definition detach_unit :: "UNIT \<Rightarrow> UNIT" where
  "detach_unit u = u\<lparr>u_att := False\<rparr>"

text \<open>Reading and writing the tape image; \<open>None\<close> is an access outside the buffer.\<close>

definition rd_u :: "int32 list \<Rightarrow> int32 \<Rightarrow> int32 option" where
  "rd_u buf ba = (if unat ba < length buf then Some (buf ! unat ba) else None)"

definition rd_s :: "int32 list \<Rightarrow> int32 \<Rightarrow> int32 option" where
  "rd_s buf i = (if 0 \<le>s i \<and> unat i < length buf then Some (buf ! unat i) else None)"

definition wr_u :: "int32 list \<Rightarrow> int32 \<Rightarrow> int32 \<Rightarrow> int32 list option" where
  "wr_u buf ba v = (if unat ba < length buf then Some (buf[unat ba := v]) else None)"

section \<open>Utility routines\<close>

text \<open>\<^verbatim>\<open>dt_comobv\<close>: complement obverse.\<close>

definition dt_comobv :: "int32 \<Rightarrow> int32" where
  "dt_comobv dat0 =
     (let dat = dat0 XOR 0x3FFFF in
        ((signed_drop_bit 15 dat) AND 0x7) OR ((signed_drop_bit 9 dat) AND 0x38) OR
        ((signed_drop_bit 3 dat) AND 0x1C0) OR (push_bit 3 (dat AND 0x1C0)) OR
        (push_bit 9 (dat AND 0x38)) OR (push_bit 15 (dat AND 0x7)))"

text \<open>
  \<^verbatim>\<open>dt_csum\<close>: the loop body is \<open>csum_step\<close>; \<open>dt_csum_loop\<close> runs the remaining \<open>n\<close>
  iterations from index \<open>i\<close>.
\<close>

definition csum_step :: "int32 \<Rightarrow> int32 \<Rightarrow> int32" where
  "csum_step csum wrd =
     (let c = csum + wrd in if 0x3FFFF <s c then (c + 1) AND 0x3FFFF else c)"

fun dt_csum_loop :: "int32 list \<Rightarrow> int32 \<Rightarrow> nat \<Rightarrow> int32 \<Rightarrow> int32 \<Rightarrow> int32 option" where
  "dt_csum_loop bptr ba 0 i csum = Some csum"
| "dt_csum_loop bptr ba (Suc n) i csum =
     (case rd_s bptr (ba + i) of
        None \<Rightarrow> None
      | Some wrd \<Rightarrow> dt_csum_loop bptr ba n (i + 1) (csum_step csum wrd))"

definition dt_csum :: "UNIT \<Rightarrow> int32 \<Rightarrow> int32 option" where
  "dt_csum u blk =
     (let bptr = filebuf u; ba = blk * DTU_BSIZE u in
        case dt_csum_loop bptr ba (unat (DTU_BSIZE u)) 0 0x3FFFF of
          None \<Rightarrow> None
        | Some csum \<Rightarrow> Some (csum XOR 0x3FFFF))"

text \<open>\<^verbatim>\<open>dt_gethdr\<close>: the header and trailer words are synthesised, not stored.\<close>

definition dt_gethdr :: "UNIT \<Rightarrow> int32 \<Rightarrow> int32 \<Rightarrow> int32 option" where
  "dt_gethdr u blk relpos =
     (let wrd = sdiv32 relpos DT_WSIZE in
        if wrd = DT_BLKWD then Some blk
        else if wrd = DT_CSMWD then Some 0x3FFFF
        else if wrd = 2 * DT_HTWRD + DTU_BSIZE u - DT_CSMWD - 1 then dt_csum u blk
        else if wrd = 2 * DT_HTWRD + DTU_BSIZE u - DT_BLKWD - 1 then Some (dt_comobv blk)
        else Some 0)"

section \<open>Position update and error signalling\<close>

text \<open>
  \<^verbatim>\<open>dt_seterr\<close> on a unit whose motion is below \<^verbatim>\<open>DTS_ACCF\<close>: it clears the go bit,
  sets the error flags and updates the interrupt request, and touches no unit.
  \<^verbatim>\<open>dt_setpos\<close> calls \<^verbatim>\<open>dt_seterr\<close> only after it has zeroed the unit's state, so this
  is the path it takes there.
\<close>

definition dt_seterr_stopped :: "dt_state \<Rightarrow> int32 \<Rightarrow> dt_state" where
  "dt_seterr_stopped s e =
     DT_UPDINT (s\<lparr>dtsa := dtsa s AND NOT DTA_STSTP, dtsb := dtsb s OR DTB_ERF OR e\<rparr>)"

text \<open>
  The \<^verbatim>\<open>switch\<close> of \<^verbatim>\<open>dt_setpos\<close>: the lines travelled in \<open>ut\<close> ticks under motion
  \<open>mot\<close>. A division by zero is a fault (\<open>None\<close>).
\<close>

definition dt_delta :: "dt_state \<Rightarrow> int32 \<Rightarrow> int32 \<Rightarrow> int32 option" where
  "dt_delta s mot ut =
     (let m = mot AND NOT DTS_DIR in
        if m = DTS_STOP then Some 0
        else if m = DTS_DECF then
          (if dt_ltime s = 0 then None
           else let ulin = ut div dt_ltime s; udelt = sdiv32 (dt_dctime s) (dt_ltime s) in
             if 2 * udelt = 0 then None
             else Some (((ulin * udelt * 2) - (ulin * ulin)) div (2 * udelt)))
        else if m = DTS_ACCF then
          (if dt_ltime s = 0 then None
           else let ulin = ut div dt_ltime s; udelt = sdiv32 (dt_actime s) (dt_ltime s) in
             if 2 * udelt = 0 then None
             else Some ((ulin * ulin) div (2 * udelt)))
        else if m = DTS_ATSF then
          (if dt_ltime s = 0 then None else Some (ut div dt_ltime s))
        else None)"

text \<open>\<^verbatim>\<open>dt_setpos\<close>: the result is the \<^verbatim>\<open>t_bool\<close> returned (\<open>True\<close>: off reel) and the new state.\<close>

definition dt_setpos :: "dt_state \<Rightarrow> nat \<Rightarrow> (bool \<times> dt_state) option" where
  "dt_setpos s k =
     (let u = units s k;
          mot = DTS_GETMOT (STATE u);
          new_time = sim_grtime s;
          ut = new_time - LASTT u in
        if ut = 0 then Some (False, s)
        else case dt_delta s mot ut of
          None \<Rightarrow> None
        | Some delta \<Rightarrow>
            let p = (if mot AND DTS_DIR \<noteq> 0 then pos u - delta else pos u + delta);
                u1 = u\<lparr>LASTT := new_time, pos := p\<rparr> in
              if p <s 0 \<or> (DTU_FWDEZ u1 + DT_EZLIN) <s p then
                let u2 = (detach_unit u1)\<lparr>STATE := 0, pos := 0\<rparr>;
                    s1 = s\<lparr>units := (units s)(k := u2)\<rparr> in
                  Some (True, if of_nat k = DTA_GETUNIT (dtsa s1)
                              then dt_seterr_stopped s1 DTB_SEL else s1)
              else Some (False, s\<lparr>units := (units s)(k := u1)\<rparr>))"

text \<open>\<^verbatim>\<open>dt_seterr\<close>: the unit pointer may be \<^verbatim>\<open>NULL\<close> (\<open>None\<close>); dereferencing it is a fault.\<close>

definition dt_seterr :: "dt_state \<Rightarrow> nat option \<Rightarrow> int32 \<Rightarrow> dt_state option" where
  "dt_seterr s uptr e =
     (case uptr of
        None \<Rightarrow> None
      | Some k \<Rightarrow>
          let mot = DTS_GETMOT (STATE (units s k));
              s1 = s\<lparr>dtsa := dtsa s AND NOT DTA_STSTP, dtsb := dtsb s OR DTB_ERF OR e\<rparr> in
            if DTS_ACCF \<le>s mot then
              (case dt_setpos (sim_cancel s1 k) k of
                 None \<Rightarrow> None
               | Some (True, s2) \<Rightarrow> Some s2
               | Some (False, s2) \<Rightarrow>
                   Some (DT_UPDINT (DTS_SETSTA (sim_activate s2 k (dt_dctime s2)) k
                                      (DTS_DECF OR (mot AND DTS_DIR)) 0)))
            else Some (DT_UPDINT s1))"

text \<open>\<^verbatim>\<open>dt_schedez\<close>: schedule the arrival in the end zone.\<close>

definition dt_schedez :: "dt_state \<Rightarrow> nat \<Rightarrow> int32 \<Rightarrow> dt_state" where
  "dt_schedez s k dir =
     (let u = units s k;
          newpos = (if dir \<noteq> 0 then DT_EZLIN - DT_WSIZE else DTU_FWDEZ u + DT_WSIZE) in
        sim_activate s k (ABS (newpos - pos u) * dt_ltime s))"

section \<open>Scheduling a function at speed\<close>

text \<open>
  The tail of \<^verbatim>\<open>dt_newfnc\<close>: a write function raises the data flag, and the unit is
  scheduled for the time it takes to reach \<open>newpos\<close>.
\<close>

definition dt_newfnc_act :: "dt_state \<Rightarrow> nat \<Rightarrow> int32 \<Rightarrow> int32 \<Rightarrow> dt_state" where
  "dt_newfnc_act s k fnc newpos =
     (let s1 = (if fnc = FNC_WRIT \<or> fnc = FNC_WALL
                then DT_UPDINT (s\<lparr>dtsb := dtsb s OR DTB_DTF\<rparr>) else s) in
        sim_activate s1 k (ABS (newpos - pos (units s1 k)) * dt_ltime s1))"

text \<open>
  \<^verbatim>\<open>dt_newfnc\<close> from the computation of the block number on: the end zone check and
  the \<^verbatim>\<open>switch\<close> on the function. The log messages are output only and are left out.
\<close>

definition dt_newfnc_sched :: "dt_state \<Rightarrow> nat \<Rightarrow> dt_state option" where
  "dt_newfnc_sched s k =
     (let u = units s k;
          fnc = DTS_GETFNC (STATE u);
          dir = DTS_GETMOT (STATE u) AND DTS_DIR;
          blk = DT_LIN2BL (pos u) u in
        if (if dir \<noteq> 0 then DT_QREZ u else DT_QFEZ u) then dt_seterr s (Some k) DTB_END
        else
          let s1 = (sim_cancel s k)\<lparr>dt_substate := DTO_SOB\<rparr> in
            if fnc = DTS_OFR then
              Some (dt_newfnc_act s1 k fnc
                (if dir \<noteq> 0 then - 1000 else DTU_FWDEZ u + DT_EZLIN + 1000))
            else if fnc = FNC_MOVE then Some (dt_schedez s1 k dir)
            else if fnc = FNC_SRCH then
              Some (dt_newfnc_act s1 k fnc
                (if dir \<noteq> 0
                 then DT_BLK2LN (if DT_QFEZ u then DTU_TSIZE u else blk) u - DT_BLKLN - DT_WSIZE
                 else DT_BLK2LN (if DT_QREZ u then 0 else blk + 1) u + DT_BLKLN + (DT_WSIZE - 1)))
            else if fnc = FNC_WRIT \<or> fnc = FNC_READ \<or> fnc = FNC_RALL \<or> fnc = FNC_WALL then
              Some (dt_newfnc_act s1 k fnc
                (if DT_QEZ u
                 then (if dir \<noteq> 0 then DTU_FWDEZ u - DT_WSIZE else DT_EZLIN + (DT_WSIZE - 1))
                 else (let newpos = (pos u div DT_WSIZE) * DT_WSIZE in
                         if dir = 0 then newpos + (DT_WSIZE - 1) else newpos)))
            else dt_seterr s1 (Some k) DTB_SEL)"

text \<open>
  The one-line bump of \<^verbatim>\<open>dt_newfnc\<close>: \<open>oldpos\<close> is the position saved on entry, and the
  direction is the one of the state just stored.
\<close>

definition dt_bump :: "int32 \<Rightarrow> UNIT \<Rightarrow> UNIT" where
  "dt_bump oldpos u =
     (let dir = DTS_GETMOT (STATE u) AND DTS_DIR in
        if oldpos = pos u then u\<lparr>pos := pos u + (if dir \<noteq> 0 then - 1 else 1)\<rparr> else u)"

definition dt_newfnc :: "dt_state \<Rightarrow> nat \<Rightarrow> int32 \<Rightarrow> dt_state option" where
  "dt_newfnc s k newsta =
     (let oldpos = pos (units s k) in
        case dt_setpos s k of
          None \<Rightarrow> None
        | Some (True, s1) \<Rightarrow> Some s1
        | Some (False, s1) \<Rightarrow>
            dt_newfnc_sched
              (upd_unit s1 k (\<lambda>u. dt_bump oldpos (u\<lparr>STATE := newsta\<rparr>))) k)"

section \<open>Command register change and deselection\<close>

text \<open>
  The idiom of \<^verbatim>\<open>dt_newsa\<close>: update the position and, unless the unit went off reel,
  cancel the current event and schedule a new one \<open>t\<close> ticks ahead.
\<close>

definition dt_resched :: "dt_state \<Rightarrow> nat \<Rightarrow> int32 \<Rightarrow> (bool \<times> dt_state) option" where
  "dt_resched s k t =
     (case dt_setpos s k of
        None \<Rightarrow> None
      | Some (True, s1) \<Rightarrow> Some (True, s1)
      | Some (False, s1) \<Rightarrow> Some (False, sim_activate (sim_cancel s1 k) k t))"

definition dt_newsa :: "dt_state \<Rightarrow> int32 \<Rightarrow> dt_state option" where
  "dt_newsa s newf =
     (let new_unit = DTA_GETUNIT newf in
      if new_unit <s 0 then Some s
      else
        let k = unat new_unit; u = units s k in
        if \<not> u_att u then dt_seterr s (Some k) DTB_SEL
        else
          let prev_mot = DTS_GETMOT (STATE u);
              prev_mving = b2i (prev_mot \<noteq> DTS_STOP);
              prev_dir = prev_mot AND DTS_DIR;
              new_mving = b2i (newf AND DTA_STSTP \<noteq> 0);
              new_dir = b2i (newf AND DTA_FWDRV \<noteq> 0);
              new_fnc = DTA_GETFNC newf in
          if (prev_mving OR new_mving) = 0 then Some s
          else if new_mving AND NOT prev_mving \<noteq> 0 then
            (case dt_resched s k (dt_actime s) of
               None \<Rightarrow> None
             | Some (True, s1) \<Rightarrow> Some s1
             | Some (False, s1) \<Rightarrow>
                 Some (DTS_SET2ND (DTS_SETSTA s1 k (DTS_ACCF OR new_dir) 0) k
                         (DTS_ATSF OR new_dir) new_fnc))
          else if prev_mving AND NOT new_mving \<noteq> 0 then
            (case (if prev_mot AND NOT DTS_DIR \<noteq> DTS_DECF
                   then dt_resched s k (dt_dctime s) else Some (False, s)) of
               None \<Rightarrow> None
             | Some (True, s1) \<Rightarrow> Some s1
             | Some (False, s1) \<Rightarrow> Some (DTS_SETSTA s1 k (DTS_DECF OR prev_dir) 0))
          else if prev_dir XOR new_dir \<noteq> 0 then
            (case (if prev_mot AND NOT DTS_DIR \<noteq> DTS_DECF
                   then dt_resched s k (dt_dctime s) else Some (False, s)) of
               None \<Rightarrow> None
             | Some (True, s1) \<Rightarrow> Some s1
             | Some (False, s1) \<Rightarrow>
                 Some (DTS_SET3RD
                         (DTS_SET2ND (DTS_SETSTA s1 k (DTS_DECF OR prev_dir) 0) k
                            (DTS_ACCF OR new_dir) 0) k
                         (DTS_ATSF OR new_dir) new_fnc))
          else if prev_mot <s DTS_ACCF then
            (case dt_resched s k (dt_actime s) of
               None \<Rightarrow> None
             | Some (True, s1) \<Rightarrow> Some s1
             | Some (False, s1) \<Rightarrow>
                 Some (DTS_SET2ND (DTS_SETSTA s1 k (DTS_ACCF OR new_dir) 0) k
                         (DTS_ATSF OR new_dir) new_fnc))
          else if prev_mot <s DTS_ATSF then
            Some (DTS_SET2ND s k (DTS_ATSF OR new_dir) new_fnc)
          else dt_newfnc s k (DTS_STA (DTS_ATSF OR new_dir) new_fnc))"

definition dt_deselect :: "dt_state \<Rightarrow> int32 \<Rightarrow> dt_state option" where
  "dt_deselect s oldf =
     (let old_unit = DTA_GETUNIT oldf in
      if old_unit <s 0 then Some s
      else
        let k = unat old_unit;
            old_mot = DTS_GETMOT (STATE (units s k)) in
        if DTS_ATSF \<le>s old_mot then dt_newfnc s k (DTS_STA old_mot DTS_OFR)
        else if DTS_ACCF \<le>s old_mot then
          Some (DTS_SET2ND s k (DTS_ATSF OR (old_mot AND DTS_DIR)) DTS_OFR)
        else Some s)"

section \<open>The IOT routine\<close>

text \<open>
  \<^verbatim>\<open>dt (IR, dev, dat)\<close>: the result is the returned data word and the new state. The
  pulses exclude one another, so the sequence of \<^verbatim>\<open>if\<close> statements is a chain; the
  interrupt update closes every pulse of an enabled device.
\<close>

definition dt_pulse_MSE :: "dt_state \<Rightarrow> int32 \<Rightarrow> dt_state option" where
  "dt_pulse_MSE s dat =
     (case (if (dtsa s XOR dat) AND DTA_UNIT \<noteq> 0 then dt_deselect s (dtsa s) else Some s) of
        None \<Rightarrow> None
      | Some s1 \<Rightarrow>
          Some (s1\<lparr>dtsa := (dtsa s1 AND NOT DTA_UNIT) OR (dat AND DTA_UNIT),
                   dtsb := dtsb s1 AND NOT (DTB_DTF OR DTB_BEF OR DTB_ERF OR DTB_ALLERR)\<rparr>))"

definition dt_pulse_MLC :: "dt_state \<Rightarrow> nat option \<Rightarrow> int32 \<Rightarrow> dt_state option" where
  "dt_pulse_MLC s uptr dat =
     (let s1 = s\<lparr>dtsa := (dtsa s AND NOT DTA_RW) OR (dat AND DTA_RW),
                 dtsb := dtsb s AND NOT (DTB_DTF OR DTB_BEF OR DTB_ERF OR DTB_ALLERR)\<rparr>;
          fnc = DTA_GETFNC (dtsa s1) in
        if (case uptr of
              None \<Rightarrow> True
            | Some k \<Rightarrow>
                u_dis (units s1 k) \<or> FNC_WMRK \<le>s fnc \<or>
                (fnc = FNC_WRIT \<and> u_wlk (units s1 k)) \<or>
                (fnc = FNC_WALL \<and> u_wlk (units s1 k)))
        then dt_seterr s1 uptr DTB_SEL
        else dt_newsa s1 (dtsa s1))"

definition dt_pulse_MRS :: "dt_state \<Rightarrow> nat option \<Rightarrow> dt_state" where
  "dt_pulse_MRS s uptr =
     (let s1 = s\<lparr>dtsb := dtsb s AND NOT (DTB_REV OR DTB_GO)\<rparr> in
        case uptr of
          None \<Rightarrow> s1
        | Some k \<Rightarrow>
            let st = STATE (units s1 k);
                mot = DTS_GETMOT st;
                s2 = (if mot AND DTS_DIR \<noteq> 0 then s1\<lparr>dtsb := dtsb s1 OR DTB_REV\<rparr> else s1) in
              if DTS_ACCF \<le>s mot \<or> st AND 0x3FFC0 \<noteq> 0
              then s2\<lparr>dtsb := dtsb s2 OR DTB_GO\<rparr> else s2)"

definition dt :: "dt_state \<Rightarrow> int32 \<Rightarrow> int32 \<Rightarrow> (int32 \<times> dt_state) option" where
  "dt s IR dat =
     (let pulse = signed_drop_bit 6 IR AND 0x1F in
      if dev_dis s then Some (stop_reason s OR dat, s)
      else
        let unum = DTA_GETUNIT (dtsa s);
            uptr = (if 0 \<le>s unum then Some (unat unum) else None) in
        case (if pulse = 3 then map_option (Pair dat) (dt_pulse_MSE s dat)
              else if pulse = 4 then map_option (Pair dat) (dt_pulse_MLC s uptr dat)
              else if pulse = 5 then
                Some ((dat AND NOT DMASK) OR dtdb s,
                      s\<lparr>dtsb := dtsb s AND NOT (DTB_DTF OR DTB_BEF)\<rparr>)
              else if pulse = 6 then
                Some (dat, s\<lparr>dtdb := dat AND DMASK,
                              dtsb := dtsb s AND NOT (DTB_DTF OR DTB_BEF)\<rparr>)
              else if pulse = 7 then
                (let s1 = dt_pulse_MRS s uptr in Some ((dat AND NOT DMASK) OR dtsb s1, s1))
              else Some (dat, s)) of
          None \<Rightarrow> None
        | Some (d, s1) \<Rightarrow> Some (d, DT_UPDINT s1))"

section \<open>Unit service\<close>

text \<open>The last statement of the read case: a word read in reverse is complement obversed.\<close>

definition dt_rev_dtdb :: "int32 \<Rightarrow> dt_state \<Rightarrow> dt_state" where
  "dt_rev_dtdb dir s = (if dir \<noteq> 0 then s\<lparr>dtdb := dt_comobv (dtdb s)\<rparr> else s)"

text \<open>
  The read and read all case of \<^verbatim>\<open>dt_svc\<close>, after the test of the data flag. A
  \<^verbatim>\<open>break\<close> of the source leaves the case with the state reached so far.
\<close>

definition dt_svc_read ::
  "dt_state \<Rightarrow> nat \<Rightarrow> int32 \<Rightarrow> int32 \<Rightarrow> int32 \<Rightarrow> int32 list \<Rightarrow> dt_state option" where
  "dt_svc_read s k fnc dir blk bptr =
     (let s1 = sim_activate s k (DT_WSIZE * dt_ltime s);
          u = units s1 k;
          relpos = DT_LIN2OF (pos u) u in
        if DT_HTLIN \<le>s relpos \<and> relpos <s DTU_LPERB u - DT_HTLIN then
          (let wrd = DT_LIN2WD (pos u) u;
               ba = (blk * DTU_BSIZE u) + wrd in
             case rd_u bptr ba of
               None \<Rightarrow> None
             | Some w \<Rightarrow> Some (dt_rev_dtdb dir (s1\<lparr>dtdb := w, dtsb := dtsb s1 OR DTB_DTF\<rparr>)))
        else
          (let ma = (2 * DT_HTWRD) + DTU_BSIZE u - DT_CSMWD - 1;
               wrd = sdiv32 relpos DT_WSIZE in
             if wrd = 0 \<or> wrd = (2 * DT_HTWRD) + DTU_BSIZE u - 1 then Some s1
             else if fnc = FNC_READ \<and> wrd \<noteq> DT_CSMWD \<and> wrd \<noteq> ma then Some s1
             else
               case dt_gethdr u blk relpos of
                 None \<Rightarrow> None
               | Some w \<Rightarrow>
                   Some (dt_rev_dtdb dir
                     (s1\<lparr>dtdb := w,
                         dtsb := dtsb s1 OR
                           (if wrd = (if dir \<noteq> 0 then DT_CSMWD else ma)
                            then DTB_BEF else DTB_DTF)\<rparr>))))"

text \<open>The write and write all case of \<^verbatim>\<open>dt_svc\<close>, after the test of the data flag.\<close>

definition dt_svc_write ::
  "dt_state \<Rightarrow> nat \<Rightarrow> int32 \<Rightarrow> int32 \<Rightarrow> int32 \<Rightarrow> dt_state option" where
  "dt_svc_write s k fnc dir blk =
     (let s1 = sim_activate s k (DT_WSIZE * dt_ltime s);
          u = units s1 k;
          relpos = DT_LIN2OF (pos u) u in
        if DT_HTLIN \<le>s relpos \<and> relpos <s DTU_LPERB u - DT_HTLIN then
          (let wrd = DT_LIN2WD (pos u) u;
               ba = (blk * DTU_BSIZE u) + wrd in
             case wr_u (filebuf u) ba (if dir \<noteq> 0 then dt_comobv (dtdb s1) else dtdb s1) of
               None \<Rightarrow> None
             | Some buf \<Rightarrow>
                 let u1 = u\<lparr>filebuf := buf\<rparr>;
                     u2 = (if ba \<ge> hwmark u1 then u1\<lparr>hwmark := ba + 1\<rparr> else u1);
                     s2 = s1\<lparr>units := (units s1)(k := u2)\<rparr> in
                   Some (s2\<lparr>dtsb := dtsb s2 OR
                               (if wrd = (if dir \<noteq> 0 then 0 else DTU_BSIZE u - 1)
                                then DTB_BEF else DTB_DTF)\<rparr>))
        else
          (let wrd = sdiv32 relpos DT_WSIZE in
             if wrd = 0 \<or> wrd = (2 * DT_HTWRD) + DTU_BSIZE u - 1 then Some s1
             else if fnc = FNC_WRIT \<and> wrd \<noteq> (2 * DT_HTWRD) + DTU_BSIZE u - DT_CSMWD - 1
             then Some s1
             else Some (s1\<lparr>dtsb := dtsb s1 OR DTB_DTF\<rparr>)))"

text \<open>
  The functional cases of \<^verbatim>\<open>dt_svc\<close>: the \<^verbatim>\<open>switch\<close> on the function of a unit at
  speed that is on the tape and outside the end zones. A case that ends in \<^verbatim>\<open>break\<close>
  runs the interrupt update; a case that returns does not.
\<close>

definition dt_svc_fnc ::
  "dt_state \<Rightarrow> nat \<Rightarrow> int32 \<Rightarrow> int32 \<Rightarrow> int32 \<Rightarrow> int32 list \<Rightarrow> dt_state option" where
  "dt_svc_fnc s k fnc dir blk bptr =
     (if fnc = FNC_MOVE then dt_seterr s (Some k) DTB_END
      else if fnc = DTS_OFR then
        Some (DT_UPDINT (upd_unit s k (\<lambda>u. (detach_unit u)\<lparr>STATE := 0, pos := 0\<rparr>)))
      else if fnc = FNC_SRCH then
        (if dtsb s AND DTB_DTF \<noteq> 0 then dt_seterr s (Some k) DTB_TIM
         else
           let s1 = sim_activate s k (DTU_LPERB (units s k) * dt_ltime s) in
             Some (DT_UPDINT (s1\<lparr>dtdb := blk, dtsb := dtsb s1 OR DTB_DTF\<rparr>)))
      else if fnc = FNC_READ \<or> fnc = FNC_RALL then
        (if dtsb s AND DTB_DTF \<noteq> 0 then dt_seterr s (Some k) DTB_TIM
         else map_option DT_UPDINT (dt_svc_read s k fnc dir blk bptr))
      else if fnc = FNC_WRIT \<or> fnc = FNC_WALL then
        (if dtsb s AND DTB_DTF \<noteq> 0 then dt_seterr s (Some k) DTB_TIM
         else map_option DT_UPDINT (dt_svc_write s k fnc dir blk))
      else map_option DT_UPDINT (dt_seterr s (Some k) DTB_SEL))"

text \<open>\<^verbatim>\<open>dt_svc\<close>: the service routine of unit \<open>k\<close>.\<close>

definition dt_svc :: "dt_state \<Rightarrow> nat \<Rightarrow> dt_state option" where
  "dt_svc s k =
     (let u = units s k;
          mot = DTS_GETMOT (STATE u);
          dir = mot AND DTS_DIR;
          fnc = DTS_GETFNC (STATE u);
          bptr = filebuf u in
        if mot = DTS_DECF \<or> mot = DTS_DECR then
          (case dt_setpos s k of
             None \<Rightarrow> None
           | Some (True, s1) \<Rightarrow> Some s1
           | Some (False, s1) \<Rightarrow>
               let s2 = upd_unit s1 k (\<lambda>u. u\<lparr>STATE := DTS_NXTSTA (STATE u)\<rparr>) in
                 Some (if STATE (units s2 k) \<noteq> 0
                       then sim_activate s2 k (dt_actime s2) else s2))
        else if mot = DTS_ACCF \<or> mot = DTS_ACCR then
          dt_newfnc s k (DTS_NXTSTA (STATE u))
        else if mot = DTS_ATSF \<or> mot = DTS_ATSR then
          (case dt_setpos s k of
             None \<Rightarrow> None
           | Some (True, s1) \<Rightarrow> Some s1
           | Some (False, s1) \<Rightarrow>
               if DT_QEZ (units s1 k) then dt_seterr s1 (Some k) DTB_END
               else dt_svc_fnc s1 k fnc dir
                      (DT_LIN2BL (pos (units s1 k)) (units s1 k)) bptr)
        else dt_seterr s (Some k) DTB_SEL)"

text \<open>
  Modelled from the spec: the scheduler's dispatch, which is part of the simulator
  core. When the timer of a unit is due, the clock stands at the due time, the timer
  is no longer armed, and the unit's service routine runs.
\<close>

definition sim_event :: "dt_state \<Rightarrow> nat \<Rightarrow> dt_state option" where
  "sim_event s k =
     (case timer (units s k) of
        None \<Rightarrow> Some s
      | Some t \<Rightarrow> dt_svc ((sim_cancel s k)\<lparr>now := t\<rparr>) k)"

section \<open>The words of the specification\<close>

text \<open>
  The one's-complement sum of 18-bit words, as the specification names it: addition
  with end-around carry, summed from zero. \<open>complement18\<close> inverts the 18 bits.
  \<open>block_words u blk\<close> are the data words of block \<open>blk\<close> in the image of \<open>u\<close>.
\<close>

definition ones_add18 :: "nat \<Rightarrow> nat \<Rightarrow> nat" where
  "ones_add18 a b = (let s = a + b in if s < 2 ^ 18 then s else s - 2 ^ 18 + 1)"

definition ones_sum18 :: "nat list \<Rightarrow> nat" where
  "ones_sum18 ws = foldl ones_add18 0 ws"

definition complement18 :: "int32 \<Rightarrow> int32" where
  "complement18 x = x XOR 0x3FFFF"

definition block_words :: "UNIT \<Rightarrow> int32 \<Rightarrow> int32 list" where
  "block_words u blk =
     take (unat (DTU_BSIZE u)) (drop (unat blk * unat (DTU_BSIZE u)) (filebuf u))"

text \<open>A freshly attached 18b unit with a blank (all zero) image, as \<^verbatim>\<open>dt_attach\<close> leaves it.\<close>

definition blank_unit :: UNIT where
  "blank_unit = \<lparr>u_att = True, u_dis = False, u_wlk = False, u_8fmt = False,
     pos = 36000, STATE = 0, LASTT = 0, filebuf = replicate 147968 0, hwmark = 0,
     timer = None\<rparr>"

text \<open>
  The controller after a reset, with blank units and the default timings; and the same
  with unit 1 selected and searching forward at speed at line 40000, six ticks after
  its position was last updated.
\<close>

definition idle_state :: dt_state where
  "idle_state = \<lparr>dtsa = 0, dtsb = 0, dtdb = 0, dt_ltime = 12, dt_actime = 54000,
     dt_dctime = 72000, dt_substate = 0, sbs_rq = False, units = (\<lambda>k. blank_unit),
     now = 0, dev_dis = False, stop_reason = 0\<rparr>"

definition search_state :: dt_state where
  "search_state = idle_state\<lparr>dtsa := 0x1021, now := 6,
     units := (\<lambda>k. blank_unit)
       (1 := blank_unit\<lparr>pos := 40000, STATE := 0x31, timer := Some 18000\<rparr>)\<rparr>"

text \<open>A layered state word from its three slots: current, next and next-next.\<close>

definition layered :: "int32 \<Rightarrow> int32 \<Rightarrow> int32 \<Rightarrow> int32" where
  "layered cur nxt nn = cur OR push_bit DTS_V_2ND nxt OR push_bit DTS_V_3RD nn"

text \<open>
  Unit 1 selected and searching in reverse at speed at line 36500; and the state it
  reaches when the host selects unit 2 (unit 1 is sent off reel at line 36499) and
  selects unit 1 again 440000 ticks later, before the unit's timer is due.
\<close>

definition rsearch_state :: dt_state where
  "rsearch_state = idle_state\<lparr>dtsa := 0x1031,
     units := (\<lambda>k. blank_unit)
       (1 := blank_unit\<lparr>pos := 36500, STATE := 0x39, timer := Some 6000\<rparr>)\<rparr>"

definition offreel_state :: dt_state where
  "offreel_state = rsearch_state\<lparr>dt_substate := 2, now := 440000,
     units := (\<lambda>k. blank_unit)
       (1 := blank_unit\<lparr>pos := 36499, STATE := 0x3F, timer := Some 449988\<rparr>)\<rparr>"


text \<open>
  Unit 1 searching forward at speed, one block time after the service call at the mark
  of the last block (577, line 956903, time 0): the host has not taken the block number,
  so the data flag is still set when the next service call falls due at time 19152.
\<close>

definition last_block_state :: dt_state where
  "last_block_state = idle_state\<lparr>dtsa := 0x1021, dtsb := 0x20000, dtdb := 577, now := 19152,
     units := (\<lambda>k. blank_unit)(1 := blank_unit\<lparr>pos := 956903, STATE := 0x31\<rparr>)\<rparr>"

text \<open>The bit of the argument that \<^verbatim>\<open>dt_comobv\<close> moves (inverted) to bit \<open>n\<close>.\<close>

definition rv :: "nat \<Rightarrow> nat" where
  "rv n = (if n < 3 then n + 15 else if n < 6 then n + 9 else if n < 9 then n + 3
           else if n < 12 then n - 3 else if n < 15 then n - 9 else n - 15)"

section \<open>Detaching a unit\<close>


section \<open>A read all pass over a block\<close>

text \<open>
  Modelled from the spec: the host's side of the data flag protocol. The program that
  drives the controller is not among the sources. By the spec, a raised data flag or
  block end flag tells the host that a word stands in the data buffer, and the host
  fetches it with the read data pulse (pulse 5 of \<^verbatim>\<open>dt\<close>), which clears both flags.
  \<open>read_all_step\<close> is one word time: the timer of the unit falls due (\<open>sim_event\<close>, which
  runs \<^verbatim>\<open>dt_svc\<close>), and the host reads the data buffer if a flag is raised.
  \<open>read_all_run n\<close> is \<open>n\<close> word times in a row; it collects the words the host read.
\<close>

definition read_all_step :: "dt_state \<Rightarrow> nat \<Rightarrow> (int32 list \<times> dt_state) option" where
  "read_all_step s k =
     (case sim_event s k of
        None \<Rightarrow> None
      | Some s1 \<Rightarrow>
          if dtsb s1 AND (DTB_DTF OR DTB_BEF) \<noteq> 0 then
            (case dt s1 0x140 0 of None \<Rightarrow> None | Some (d, s2) \<Rightarrow> Some ([d], s2))
          else Some ([], s1))"

fun read_all_run :: "nat \<Rightarrow> dt_state \<Rightarrow> nat \<Rightarrow> (int32 list \<times> dt_state) option" where
  "read_all_run 0 s k = Some ([], s)"
| "read_all_run (Suc n) s k =
     (case read_all_step s k of
        None \<Rightarrow> None
      | Some (ws, s1) \<Rightarrow>
          (case read_all_run n s1 k of
             None \<Rightarrow> None
           | Some (ws', s2) \<Rightarrow> Some (ws @ ws', s2)))"

text \<open>
  A unit between two words of a read all pass, as \<^verbatim>\<open>dt_svc\<close> leaves it: the device is
  enabled, the unit is at speed in direction \<open>dir\<close> with the function read all, it
  stands at line \<open>p\<close>, its timer is due one word time after its last position update,
  and the host has taken the last word (data flag and block end flag are clear). The
  line time is positive and a word time fits a machine integer.
\<close>

definition read_all_at :: "int32 \<Rightarrow> int32 \<Rightarrow> dt_state \<Rightarrow> nat \<Rightarrow> bool" where
  "read_all_at dir p s k =
     (let u = units s k in
        \<not> dev_dis s \<and> 0 < unat (dt_ltime s) \<and> unat (dt_ltime s) * 6 < 2147483648 \<and>
        dtsb s AND (DTB_DTF OR DTB_BEF) = 0 \<and>
        DTS_GETMOT (STATE u) = DTS_ATSF OR dir \<and> DTS_GETFNC (STATE u) = FNC_RALL \<and>
        pos u = p \<and> timer u = Some (LASTT u + DT_WSIZE * dt_ltime s))"

text \<open>
  The words of a block as a read all pass meets them, by word index in the block:
  the data words come from the image, the words of the header and the trailer from
  \<^verbatim>\<open>dt_gethdr\<close>. \<open>delivered dir u blk w\<close> is what a pass in direction \<open>dir\<close> hands to
  the host at word \<open>w\<close>: nothing at the first and the last word of the block, otherwise
  the word, complement obversed when the tape moves in reverse.
\<close>

definition hdr_word :: "UNIT \<Rightarrow> int32 \<Rightarrow> nat \<Rightarrow> int32" where
  "hdr_word u blk w = (case dt_gethdr u blk (of_nat (6 * w)) of Some x \<Rightarrow> x | None \<Rightarrow> 0)"

definition words_per_block :: "UNIT \<Rightarrow> nat" where
  "words_per_block u = unat (2 * DT_HTWRD + DTU_BSIZE u)"

definition raw_word :: "UNIT \<Rightarrow> int32 \<Rightarrow> nat \<Rightarrow> int32" where
  "raw_word u blk w =
     (if 5 \<le> w \<and> w < unat (DTU_BSIZE u) + 5
      then filebuf u ! (unat blk * unat (DTU_BSIZE u) + (w - 5))
      else hdr_word u blk w)"

definition delivered :: "int32 \<Rightarrow> UNIT \<Rightarrow> int32 \<Rightarrow> nat \<Rightarrow> int32 list" where
  "delivered d u blk w =
     (if w = 0 \<or> w = words_per_block u - 1 then []
      else [if d \<noteq> 0 then dt_comobv (raw_word u blk w) else raw_word u blk w])"

text \<open>
  Unit 1 reading all of a blank tape at speed: forward, on the last line before block
  3, and in reverse, on the first line after block 3; the next word is due at time 72.
\<close>

definition rall_fwd_state :: dt_state where
  "rall_fwd_state = idle_state\<lparr>dtsa := 0x1025,
     units := (\<lambda>k. blank_unit)
       (1 := blank_unit\<lparr>pos := 40787, STATE := 0x35, timer := Some 72\<rparr>)\<rparr>"

definition rall_rev_state :: dt_state where
  "rall_rev_state = idle_state\<lparr>dtsa := 0x1035,
     units := (\<lambda>k. blank_unit)
       (1 := blank_unit\<lparr>pos := 42384, STATE := 0x3D, timer := Some 72\<rparr>)\<rparr>"

section \<open>The position range\<close>

text \<open>
  \<open>pos_ok u\<close>: the position of \<open>u\<close> is on the tape, between 0 and the forward end zone
  plus the end zone length, as the signed comparison of \<^verbatim>\<open>dt_setpos\<close> reads it.
\<close>

definition pos_ok :: "UNIT \<Rightarrow> bool" where
  "pos_ok u \<longleftrightarrow> 0 \<le>s pos u \<and> pos u \<le>s DTU_FWDEZ u + DT_EZLIN"

text \<open>
  What one operation may do to a unit, as far as format, attachment and position go.
  \<open>unit_step\<close>: the format is unchanged, and either the attachment is unchanged and the
  position is the old one or one on the tape, or the unit is now detached with state
  and position zero. \<open>unit_bump\<close> also allows a move of the position by one line with
  the attachment unchanged. \<open>kept s s' k\<close>: from \<open>s\<close> to \<open>s'\<close> no unit other than \<open>k\<close>
  changed, and unit \<open>k\<close> kept its format, its attachment and its position.
\<close>

definition unit_step :: "UNIT \<Rightarrow> UNIT \<Rightarrow> bool" where
  "unit_step u u' \<longleftrightarrow> u_8fmt u' = u_8fmt u \<and>
     ((u_att u' = u_att u \<and> (pos u' = pos u \<or> pos_ok u')) \<or>
      (\<not> u_att u' \<and> pos u' = 0 \<and> STATE u' = 0))"


definition kept :: "dt_state \<Rightarrow> dt_state \<Rightarrow> nat \<Rightarrow> bool" where
  "kept s s' k \<longleftrightarrow> (\<forall>j. j \<noteq> k \<longrightarrow> units s' j = units s j) \<and>
     u_8fmt (units s' k) = u_8fmt (units s k) \<and> u_att (units s' k) = u_att (units s k) \<and>
     pos (units s' k) = pos (units s k)"

section \<open>Machine arithmetic lemmas\<close>

lemma sint_small:
  fixes a :: int32
  assumes "unat a < 2147483648"
  shows "sint a = int (unat a)"
proof -
  have "sint a = signed_take_bit 31 (uint a)"
    using sint_uint [of a] by simp
  also have "\<dots> = uint a"
  proof (rule signed_take_bit_int_eq_self)
    show "- (2 ^ 31) \<le> uint a"
      by (rule order_trans [of _ 0]) simp_all
    have "int (unat a) < 2147483648"
      using assms by linarith
    then show "uint a < 2 ^ 31"
      by (simp only: uint_nat) simp
  qed
  finally show ?thesis by (simp only: uint_nat)
qed

lemma sless_small:
  fixes a b :: int32
  shows "unat a < 2147483648 \<Longrightarrow> unat b < 2147483648 \<Longrightarrow> (a <s b) = (a < b)"
  by (simp only: word_sless_alt sint_small word_less_nat_alt of_nat_less_iff)

lemma sle_small: 
  fixes a b :: int32
  shows "unat a < 2147483648 \<Longrightarrow> unat b < 2147483648 \<Longrightarrow> (a \<le>s b) = (a \<le> b)"
  by (simp only: word_sle_eq sint_small word_le_nat_alt of_nat_le_iff)

lemma mod_aux:
  fixes n :: nat
  shows "262144 \<le> n \<Longrightarrow> n < 524287 \<Longrightarrow> Suc n mod 262144 = Suc (n - 262144)"
  by (simp add: le_mod_geq Suc_diff_le)

lemma csum_step_18:
  assumes "c \<le> 0x3FFFF" "w \<le> 0x3FFFF"
  shows "unat (csum_step c w) = ones_add18 (unat c) (unat w) \<and> csum_step c w \<le> 0x3FFFF"
proof -
  have c: "unat c \<le> 262143" and w: "unat w \<le> 262143"
    using assms by (simp_all add: word_le_nat_alt)
  have s: "unat (c + w) = unat c + unat w"
    using c w by (simp add: unat_word_ariths)
  have s1: "unat (c + w + 1) = unat c + unat w + 1"
    using c w s by (simp add: unat_word_ariths)
  have cmp: "(0x3FFFF <s c + w) = (262143 < unat c + unat w)"
    using c w s by (subst sless_small) (simp_all add: word_less_nat_alt)
  have m: "(0x3FFFF :: int32) = mask 18" by (simp add: mask_eq_exp_minus_1)
  have "unat ((c + w + 1) AND mask 18) = take_bit 18 (unat (c + w + 1))"
    by (simp only: unsigned_take_bit_eq flip: take_bit_eq_mask)
  then have a: "unat ((c + w + 1) AND 0x3FFFF) = (unat c + unat w + 1) mod 2 ^ 18"
    by (simp only: m s1 take_bit_eq_mod)
  show ?thesis
    using c w by (auto simp add: csum_step_def ones_add18_def Let_def cmp a s word_le_nat_alt mod_aux)
qed

lemma foldl_csum_18:
  "c \<le> 0x3FFFF \<Longrightarrow> \<forall>w\<in>set ws. w \<le> 0x3FFFF \<Longrightarrow>
     unat (foldl csum_step c ws) = foldl ones_add18 (unat c) (map unat ws) \<and>
     foldl csum_step c ws \<le> 0x3FFFF"
proof (induction ws arbitrary: c)
  case Nil
  then show ?case by simp
next
  case (Cons w ws)
  from Cons.prems have w: "w \<le> 0x3FFFF" and ws: "\<forall>w\<in>set ws. w \<le> 0x3FFFF"
    by simp_all
  from csum_step_18 [OF Cons.prems(1) w] Cons.IH [OF _ ws, of "csum_step c w"]
  show ?case by simp
qed

lemma csum_loop_eq:
  "unat ba + unat i + n \<le> length buf \<Longrightarrow> length buf < 2147483648 \<Longrightarrow>
     dt_csum_loop buf ba n i c =
       Some (foldl csum_step c (take n (drop (unat ba + unat i) buf)))"
proof (induction n arbitrary: i c)
  case 0
  then show ?case by simp
next
  case (Suc n)
  let ?j = "unat ba + unat i"
  from Suc.prems have j: "?j < length buf" and jb: "?j < 2147483648" by simp_all
  have u: "unat (ba + i) = ?j"
    using jb by (simp add: unat_word_ariths)
  have nn: "0 \<le>s ba + i"
    using jb u by (subst sle_small) simp_all
  have rd: "rd_s buf (ba + i) = Some (buf ! ?j)"
    using j u nn by (simp add: rd_s_def)
  have i1: "unat (i + 1) = Suc (unat i)"
    using jb by (simp add: unat_word_ariths)
  have dr: "take (Suc n) (drop ?j buf) = buf ! ?j # take n (drop (Suc ?j) buf)"
    using j by (simp flip: Cons_nth_drop_Suc)
  from Suc.prems have "unat ba + unat (i + 1) + n \<le> length buf"
    by (simp add: i1)
  from Suc.IH [OF this Suc.prems(2), of "csum_step c (buf ! ?j)"]
  show ?case
    by (simp add: rd dr i1)
qed

lemma dt_consts:
  "DT_HTWRD = 5" "DT_BLKWD = 1" "DT_CSMWD = 4"
  "D18_LPERB = 1596" "D18_FWDEZ = 958488" "D18_CAPAC = 147968"
  "D8_LPERB = 576" "D8_FWDEZ = 885024" "D8_CAPAC = 126764"
  by (simp_all add: DT_HTWRD_def DT_BLKWD_def DT_CSMWD_def D18_LPERB_def D18_FWDEZ_def
      D18_CAPAC_def D8_LPERB_def D8_FWDEZ_def D8_CAPAC_def sdiv32_def DT_HTLIN_def
      DT_WSIZE_def DT_BLKLN_def DT_CSMLN_def DT_EZLIN_def D18_BSIZE_def D18_TSIZE_def
      D8_BSIZE_def D8_TSIZE_def)

lemma sdiv32_small:
  assumes "unat a < 2147483648"
  shows "sdiv32 a DT_WSIZE = a div DT_WSIZE"
proof -
  have a: "sint a = uint a"
    using sint_small [OF assms] by (simp only: uint_nat)
  have "sgn (uint a) * (uint a div 6) = uint a div 6"
    by (cases "uint a = 0") (simp_all add: sgn_if)
  then show ?thesis
    by (simp add: sdiv32_def a DT_WSIZE_def word_div_def)
qed

lemma dt_csum_eq:
  assumes len: "length (filebuf u) = unat (DTU_CAPAC u)"
      and blk: "blk < DTU_TSIZE u"
      and w18: "\<forall>w\<in>set (block_words u blk). w \<le> 0x3FFFF"
  shows "dt_csum u blk =
           Some (complement18 (of_nat (ones_sum18 (map unat (0x3FFFF # block_words u blk)))))"
proof -
  let ?b = "DTU_BSIZE u"
  have bnd: "unat blk * unat ?b + unat ?b \<le> length (filebuf u) \<and> length (filebuf u) < 2147483648"
    using blk len
    by (cases "u_8fmt u")
       (simp_all add: DTU_BSIZE_def DTU_TSIZE_def DTU_CAPAC_def dt_consts D18_BSIZE_def
          D18_TSIZE_def D8_BSIZE_def D8_TSIZE_def word_less_nat_alt)
  then have ub: "unat (blk * ?b) = unat blk * unat ?b"
    by (simp add: unat_word_ariths)
  have loop: "dt_csum_loop (filebuf u) (blk * ?b) (unat ?b) 0 0x3FFFF =
                Some (foldl csum_step 0x3FFFF (block_words u blk))"
    using bnd by (subst csum_loop_eq) (simp_all add: ub block_words_def)
  from foldl_csum_18 [OF _ w18, of "0x3FFFF"]
  have f: "unat (foldl csum_step 0x3FFFF (block_words u blk)) =
             foldl ones_add18 262143 (map unat (block_words u blk))"
    by simp
  have "foldl csum_step 0x3FFFF (block_words u blk) =
          of_nat (foldl ones_add18 262143 (map unat (block_words u blk)))"
    by (simp flip: f)
  then show ?thesis
    by (simp add: dt_csum_def Let_def loop complement18_def ones_sum18_def ones_add18_def)
qed

lemma dt_gethdr_eq:
  assumes len: "length (filebuf u) = unat (DTU_CAPAC u)"
      and blk: "blk < DTU_TSIZE u"
      and rel: "relpos < DT_HTLIN \<or> (DTU_LPERB u - DT_HTLIN \<le> relpos \<and> relpos < DTU_LPERB u)"
      and w18: "\<forall>w\<in>set (block_words u blk). w \<le> 0x3FFFF"
  shows "dt_gethdr u blk relpos =
           Some (let wrd = relpos div DT_WSIZE; wpb = 2 * DT_HTWRD + DTU_BSIZE u in
                   if wrd = DT_BLKWD then blk
                   else if wrd = DT_CSMWD then 0x3FFFF
                   else if wrd = wpb - DT_CSMWD - 1 then
                     complement18 (of_nat (ones_sum18 (map unat (0x3FFFF # block_words u blk))))
                   else if wrd = wpb - DT_BLKWD - 1 then dt_comobv blk
                   else 0)"
proof -
  have "unat relpos < 2147483648"
    using rel
    by (cases "u_8fmt u")
       (auto simp add: DTU_LPERB_def dt_consts DT_HTLIN_def word_less_nat_alt)
  then have d: "sdiv32 relpos DT_WSIZE = relpos div DT_WSIZE"
    by (rule sdiv32_small)
  show ?thesis
    by (simp add: dt_gethdr_def d Let_def dt_csum_eq [OF len blk w18])
qed

lemma ones_sum_blank: "c < 262144 \<Longrightarrow> foldl ones_add18 c (replicate n 0) = c"
  by (induction n) (simp_all add: ones_add18_def)

text \<open>
  Claim C1, as the code has it. For an attached unit (its image holds the unit's
  capacity), a block \<open>blk\<close> of the tape whose data words are 18-bit values, and a line
  position \<open>relpos\<close> in the header or the trailer of the block, \<^verbatim>\<open>dt_gethdr\<close> returns:
  the block number at word offset \<open>DT_BLKWD\<close>; 0777777 at word offset \<open>DT_CSMWD\<close>; at
  word offset (words per block - \<open>DT_CSMWD\<close> - 1) the complement of the 18-bit
  one's-complement sum of 0777777 and the block's data words (the sum starts from the
  reverse checksum word, not from zero); at word offset (words per block -
  \<open>DT_BLKWD\<close> - 1) the complement obverse of the block number; and 0 at every other
  word offset.
\<close>

theorem dt_gethdr_words:
  assumes "length (filebuf u) = unat (DTU_CAPAC u)"
      and "blk < DTU_TSIZE u"
      and "relpos < DT_HTLIN \<or> (DTU_LPERB u - DT_HTLIN \<le> relpos \<and> relpos < DTU_LPERB u)"
      and "\<forall>w\<in>set (block_words u blk). w \<le> 0x3FFFF"
  shows "dt_gethdr u blk relpos =
           Some (let wrd = relpos div DT_WSIZE; wpb = 2 * DT_HTWRD + DTU_BSIZE u in
                   if wrd = DT_BLKWD then blk
                   else if wrd = DT_CSMWD then 0x3FFFF
                   else if wrd = wpb - DT_CSMWD - 1 then
                     complement18 (of_nat (ones_sum18 (map unat (0x3FFFF # block_words u blk))))
                   else if wrd = wpb - DT_BLKWD - 1 then dt_comobv blk
                   else 0)"
  using assms by (rule dt_gethdr_eq)

lemma blank_fields:
  "u_8fmt blank_unit = False" "filebuf blank_unit = replicate 147968 0"
  by (simp_all add: blank_unit_def)

lemma blank_words: "blk < 578 \<Longrightarrow> block_words blank_unit blk = replicate 256 0"
  by (simp add: block_words_def blank_fields DTU_BSIZE_def D18_BSIZE_def word_less_nat_alt)

theorem dt_gethdr_words_witness:
  "dt_gethdr blank_unit 3 1566 = Some 0"
  using dt_gethdr_words [of blank_unit 3 1566]
  by (simp add: blank_words blank_fields DTU_CAPAC_def DTU_TSIZE_def DTU_LPERB_def
      DTU_BSIZE_def dt_consts D18_TSIZE_def D18_BSIZE_def DT_HTLIN_def DT_WSIZE_def
      complement18_def ones_sum18_def ones_sum_blank ones_add18_def)

text \<open>
  Claim C1 as written fails on a blank block: the one's-complement sum of its data
  words is 0, whose complement is 0777777, while the synthesised checksum word is 0.
\<close>

theorem dt_gethdr_csum_blank:
  "dt_gethdr blank_unit 0 1566 = Some 0 \<and>
   complement18 (of_nat (ones_sum18 (map unat (block_words blank_unit 0)))) = 0x3FFFF"
  using dt_gethdr_eq [of blank_unit 0 1566]
  by (simp add: blank_words blank_fields DTU_CAPAC_def DTU_TSIZE_def DTU_LPERB_def
      DTU_BSIZE_def dt_consts D18_TSIZE_def D18_BSIZE_def DT_HTLIN_def DT_WSIZE_def
      complement18_def ones_sum18_def ones_sum_blank ones_add18_def)

lemma m18: "(0x3FFFF::int32) = mask 18" by (simp add: mask_eq_exp_minus_1)
lemma m7: "(0x7::int32) = mask 3" by (simp add: mask_eq_exp_minus_1)
lemma m38: "(0x38::int32) = push_bit 3 (mask 3)" by (simp add: mask_eq_exp_minus_1 push_bit_eq_mult)
lemma m1c0: "(0x1C0::int32) = push_bit 6 (mask 3)" by (simp add: mask_eq_exp_minus_1 push_bit_eq_mult)

lemma p1: "bit ((signed_drop_bit 15 (d::int32)) AND 0x7) n \<longleftrightarrow> n < 3 \<and> bit d (n + 15)"
  unfolding m7 by (auto simp add: bit_simps ac_simps)
lemma p2: "bit ((signed_drop_bit 9 (d::int32)) AND 0x38) n \<longleftrightarrow> 3 \<le> n \<and> n < 6 \<and> bit d (n + 9)"
  unfolding m38 by (auto simp add: bit_simps ac_simps)
lemma p3: "bit ((signed_drop_bit 3 (d::int32)) AND 0x1C0) n \<longleftrightarrow> 6 \<le> n \<and> n < 9 \<and> bit d (n + 3)"
  unfolding m1c0 by (auto simp add: bit_simps ac_simps)
lemma p4: "bit (push_bit 3 ((d::int32) AND 0x1C0)) n \<longleftrightarrow> 9 \<le> n \<and> n < 12 \<and> bit d (n - 3)"
  unfolding m1c0 by (auto simp add: bit_simps ac_simps)
lemma p5: "bit (push_bit 9 ((d::int32) AND 0x38)) n \<longleftrightarrow> 12 \<le> n \<and> n < 15 \<and> bit d (n - 9)"
  unfolding m38 by (auto simp add: bit_simps ac_simps)
lemma p6: "bit (push_bit 15 ((d::int32) AND 0x7)) n \<longleftrightarrow> 15 \<le> n \<and> n < 18 \<and> bit d (n - 15)"
  unfolding m7 by (auto simp add: bit_simps ac_simps)

lemma bit_dt_comobv: "bit (dt_comobv x) n \<longleftrightarrow> n < 18 \<and> \<not> bit x (rv n)"
  unfolding dt_comobv_def Let_def
  apply (simp only: bit_or_iff p1 p2 p3 p4 p5 p6)
  apply (simp only: m18 bit_xor_iff bit_mask_iff rv_def)
  apply auto
  done

lemma rv_rv: "n < 18 \<Longrightarrow> rv (rv n) = n \<and> rv n < 18"
  unfolding rv_def by (auto split: if_splits)

lemma dt_comobv_twice: "dt_comobv (dt_comobv x) = x AND 0x3FFFF"
  unfolding m18
  by (rule bit_word_eqI) (auto simp add: bit_dt_comobv rv_rv bit_and_iff bit_mask_iff)

lemma and18_self:
  fixes x :: int32
  assumes "x \<le> 0x3FFFF"
  shows "x AND 0x3FFFF = x"
proof -
  have "uint x \<le> uint (0x3FFFF :: int32)"
    using assms by (simp only: word_le_def)
  then have "uint x < 2 ^ 18"
    by simp
  then show ?thesis
    unfolding m18 by (simp only: mask_eq_iff)
qed

text \<open>
  Claim C3. The complement obverse is self-inverse: for every 18-bit value \<open>x\<close>,
  \<open>dt_comobv (dt_comobv x) = x\<close>.
\<close>

theorem dt_comobv_self_inverse:
  "x \<le> 0x3FFFF \<Longrightarrow> dt_comobv (dt_comobv x) = x"
  by (simp only: dt_comobv_twice and18_self)

theorem dt_comobv_self_inverse_witness:
  "(0x53 :: int32) \<le> 0x3FFFF \<and> dt_comobv 0x53 = 0x25DFF \<and>
   dt_comobv (dt_comobv 0x53) = 0x53"
  using dt_comobv_self_inverse [of "0x53"] by (simp add: dt_comobv_def)

section \<open>Lemmas on the state functions\<close>

lemma upd_unit_simps:
  "units (upd_unit s k f) = (units s)(k := f (units s k))"
  "dtsa (upd_unit s k f) = dtsa s" "dtsb (upd_unit s k f) = dtsb s"
  "dtdb (upd_unit s k f) = dtdb s" "now (upd_unit s k f) = now s"
  "dt_ltime (upd_unit s k f) = dt_ltime s" "dt_actime (upd_unit s k f) = dt_actime s"
  "dt_dctime (upd_unit s k f) = dt_dctime s" "dt_substate (upd_unit s k f) = dt_substate s"
  "sbs_rq (upd_unit s k f) = sbs_rq s" "dev_dis (upd_unit s k f) = dev_dis s"
  "stop_reason (upd_unit s k f) = stop_reason s"
  by (simp_all add: upd_unit_def)

lemma DT_UPDINT_simps:
  "dtsb (DT_UPDINT s) = dtsb s" "dtsa (DT_UPDINT s) = dtsa s" "dtdb (DT_UPDINT s) = dtdb s"
  "units (DT_UPDINT s) = units s" "now (DT_UPDINT s) = now s"
  "dt_ltime (DT_UPDINT s) = dt_ltime s" "dt_actime (DT_UPDINT s) = dt_actime s"
  "dt_dctime (DT_UPDINT s) = dt_dctime s" "dt_substate (DT_UPDINT s) = dt_substate s"
  "dev_dis (DT_UPDINT s) = dev_dis s" "stop_reason (DT_UPDINT s) = stop_reason s"
  by (simp_all add: DT_UPDINT_def)

lemma sim_cancel_simps:
  "dtsa (sim_cancel s k) = dtsa s" "dtsb (sim_cancel s k) = dtsb s"
  "dtdb (sim_cancel s k) = dtdb s" "now (sim_cancel s k) = now s"
  "dt_ltime (sim_cancel s k) = dt_ltime s" "dt_actime (sim_cancel s k) = dt_actime s"
  "dt_dctime (sim_cancel s k) = dt_dctime s" "dt_substate (sim_cancel s k) = dt_substate s"
  "sbs_rq (sim_cancel s k) = sbs_rq s" "dev_dis (sim_cancel s k) = dev_dis s"
  "stop_reason (sim_cancel s k) = stop_reason s"
  "units (sim_cancel s k) = (units s)(k := (units s k)\<lparr>timer := None\<rparr>)"
  by (simp_all add: sim_cancel_def upd_unit_def)

lemma sim_activate_simps:
  "dtsa (sim_activate s k d) = dtsa s" "dtsb (sim_activate s k d) = dtsb s"
  "dtdb (sim_activate s k d) = dtdb s" "now (sim_activate s k d) = now s"
  "dt_ltime (sim_activate s k d) = dt_ltime s" "dt_actime (sim_activate s k d) = dt_actime s"
  "dt_dctime (sim_activate s k d) = dt_dctime s"
  "dt_substate (sim_activate s k d) = dt_substate s"
  "sbs_rq (sim_activate s k d) = sbs_rq s" "dev_dis (sim_activate s k d) = dev_dis s"
  "stop_reason (sim_activate s k d) = stop_reason s"
  "units (sim_activate s k d) = (units s)(k := (units s k)\<lparr>timer := Some (now s + d)\<rparr>)"
  by (simp_all add: sim_activate_def upd_unit_def)

lemma dt_setpos_zero: "now s = LASTT (units s k) \<Longrightarrow> dt_setpos s k = Some (False, s)"
  by (simp add: dt_setpos_def Let_def sim_grtime_def)

lemma upd_unit_same:
  "LASTT (units s k) = t \<Longrightarrow> upd_unit s k (\<lambda>u. u\<lparr>LASTT := t, pos := pos (units s k)\<rparr>) = s"
  by (auto simp add: upd_unit_def)

lemma dt_setpos_FalseD:
  assumes "dt_setpos s k = Some (False, s')"
  shows "\<exists>p. s' = upd_unit s k (\<lambda>u. u\<lparr>LASTT := now s, pos := p\<rparr>) \<and>
             (now s = LASTT (units s k) \<longrightarrow> p = pos (units s k)) \<and>
             (now s \<noteq> LASTT (units s k) \<longrightarrow>
                \<not> p <s 0 \<and> \<not> (DTU_FWDEZ (units s k) + DT_EZLIN) <s p \<and>
                (\<exists>delta. dt_delta s (DTS_GETMOT (STATE (units s k))) (now s - LASTT (units s k)) = Some delta \<and>
                   p = (if DTS_GETMOT (STATE (units s k)) AND DTS_DIR \<noteq> 0
                        then pos (units s k) - delta else pos (units s k) + delta)))"
proof (cases "now s = LASTT (units s k)")
  case True
  with assms have "s' = s" by (simp add: dt_setpos_zero)
  with True show ?thesis
    by (intro exI [of _ "pos (units s k)"]) (simp add: upd_unit_same)
next
  case False
  with assms show ?thesis
    by (auto simp add: dt_setpos_def Let_def sim_grtime_def upd_unit_def DTU_FWDEZ_def
        split: option.splits if_splits)
qed

lemma dt_setpos_TrueD:
  assumes "dt_setpos s k = Some (True, s')"
  shows "\<not> u_att (units s' k) \<and> STATE (units s' k) = 0 \<and> pos (units s' k) = 0 \<and>
         now s \<noteq> LASTT (units s k) \<and>
         (\<forall>j. j \<noteq> k \<longrightarrow> units s' j = units s j)"
  using assms
  by (auto simp add: dt_setpos_def Let_def sim_grtime_def detach_unit_def
      dt_seterr_stopped_def DT_UPDINT_def split: option.splits if_splits)

lemma mot_consts:
  "DTS_STOP = 0" "DTS_DECF = 2" "DTS_DECR = 3" "DTS_ACCF = 4" "DTS_ACCR = 5"
  "DTS_ATSF = 6" "DTS_ATSR = 7" "DTS_DIR = 1" "DTS_OFR = 7"
  by (simp_all add: DTS_STOP_def DTS_DECF_def DTS_DECR_def DTS_ACCF_def DTS_ACCR_def
      DTS_ATSF_def DTS_ATSR_def DTS_DIR_def DTS_OFR_def)

lemma fnc_consts:
  "FNC_MOVE = 0" "FNC_SRCH = 1" "FNC_READ = 2" "FNC_WRIT = 3" "FNC_RALL = 5"
  "FNC_WALL = 6" "FNC_WMRK = 7"
  by (simp_all add: FNC_MOVE_def FNC_SRCH_def FNC_READ_def FNC_WRIT_def FNC_RALL_def
      FNC_WALL_def FNC_WMRK_def)

lemma and7_le: "(x::int32) AND 7 \<le> 7"
  by (rule word_and_le1)

lemma getmot_le: "DTS_GETMOT x \<le> 7"
  by (simp add: DTS_GETMOT_def DTS_M_MOT_def and7_le)

lemma unat_le7: "(m::int32) \<le> 7 \<Longrightarrow> unat m < 2147483648"
  by (simp add: word_le_nat_alt)

lemma sle_ACCF: "m \<le> 7 \<Longrightarrow> (DTS_ACCF \<le>s m) = (4 \<le> m)"
  by (subst sle_small) (simp_all add: mot_consts unat_le7)

lemma or_and_absorb: "(x OR y) AND y = (y::int32)"
  by (rule bit_word_eqI) (auto simp add: bit_simps)

lemma or_and_absorb2: "(x OR y OR z) AND y = (y::int32)" "(x OR y OR z) AND z = (z::int32)"
  by (rule bit_word_eqI; auto simp add: bit_simps)+

lemma dt_seterr_moving:
  assumes t: "now s = LASTT (units s k)"
      and m: "4 \<le> DTS_GETMOT (STATE (units s k))"
  shows "dt_seterr s (Some k) e =
           Some (DT_UPDINT (DTS_SETSTA
             (sim_activate
               (sim_cancel (s\<lparr>dtsa := dtsa s AND NOT DTA_STSTP, dtsb := dtsb s OR DTB_ERF OR e\<rparr>) k)
               k (dt_dctime s)) k
             (DTS_DECF OR (DTS_GETMOT (STATE (units s k)) AND DTS_DIR)) 0))"
proof -
  let ?s1 = "s\<lparr>dtsa := dtsa s AND NOT DTA_STSTP, dtsb := dtsb s OR DTB_ERF OR e\<rparr>"
  have "now (sim_cancel ?s1 k) = LASTT (units (sim_cancel ?s1 k) k)"
    using t by (simp add: sim_cancel_def upd_unit_def)
  then have sp: "dt_setpos (sim_cancel ?s1 k) k = Some (False, sim_cancel ?s1 k)"
    by (rule dt_setpos_zero)
  show ?thesis
    using m by (simp add: dt_seterr_def Let_def sle_ACCF getmot_le sp sim_cancel_simps)
qed

lemma dt_seterr_still:
  assumes m: "\<not> 4 \<le> DTS_GETMOT (STATE (units s k))"
  shows "dt_seterr s (Some k) e = Some (dt_seterr_stopped s e)"
  using m by (simp add: dt_seterr_def Let_def sle_ACCF getmot_le dt_seterr_stopped_def)

lemmas dt_eval = dt_def dt_pulse_MLC_def dt_pulse_MSE_def dt_pulse_MRS_def dt_newsa_def dt_newfnc_def dt_newfnc_sched_def
  dt_newfnc_act_def dt_bump_def dt_resched_def dt_deselect_def dt_seterr_def dt_setpos_def dt_delta_def
  dt_seterr_stopped_def dt_schedez_def DT_UPDINT_def DTS_SETSTA_def DTS_SET2ND_def DTS_SET3RD_def
  sim_cancel_def sim_activate_def sim_grtime_def detach_unit_def upd_unit_def
  DTA_GETUNIT_def DTA_GETFNC_def DTS_GETMOT_def DTS_GETFNC_def DTS_STA_def DTS_NXTSTA_def map_unit_def
  DTA_V_UNIT_def DTA_M_UNIT_def DTA_UNIT_def DTA_V_MOT_def DTA_V_FNC_def DTA_M_FNC_def DTA_STSTP_def DTA_FWDRV_def DTA_RW_def
  DTB_DTF_def DTB_BEF_def DTB_ERF_def DTB_END_def DTB_TIM_def DTB_REV_def DTB_GO_def DTB_MRK_def DTB_SEL_def DTB_ALLERR_def
  DTS_V_MOT_def DTS_M_MOT_def DTS_V_FNC_def DTS_M_FNC_def DTS_V_2ND_def DTS_V_3RD_def DTO_SOB_def DMASK_def
  mot_consts fnc_consts dt_consts DTU_BSIZE_def DTU_TSIZE_def DTU_LPERB_def DTU_FWDEZ_def DTU_CAPAC_def
  DT_LIN2BL_def DT_LIN2OF_def DT_LIN2WD_def DT_BLK2LN_def DT_QREZ_def DT_QFEZ_def DT_QEZ_def
  DT_EZLIN_def DT_HTLIN_def DT_BLKLN_def DT_CSMLN_def DT_WSIZE_def D18_BSIZE_def D18_TSIZE_def D8_BSIZE_def D8_TSIZE_def
  ABS_def b2i_def sdiv32_def Let_def word_sless_alt word_sle_eq
  dt_svc_def dt_svc_fnc_def dt_svc_read_def dt_svc_write_def dt_rev_dtdb_def sim_event_def
  rd_u_def rd_s_def wr_u_def

lemma dt_seterr_pos:
  assumes t: "now s = LASTT (units s k)" and e: "dt_seterr s (Some k) e = Some s'"
  shows "pos (units s' k) = pos (units s k)"
proof (cases "4 \<le> DTS_GETMOT (STATE (units s k))")
  case True
  from e show ?thesis
    unfolding dt_seterr_moving [OF t True]
    by (auto simp add: DT_UPDINT_simps DTS_SETSTA_def sim_activate_def sim_cancel_def upd_unit_def)
next
  case False
  from e show ?thesis
    unfolding dt_seterr_still [OF False]
    by (auto simp add: dt_seterr_stopped_def DT_UPDINT_simps)
qed

lemma dt_newfnc_sched_pos:
  assumes t: "now s = LASTT (units s k)" and e: "dt_newfnc_sched s k = Some s'"
  shows "pos (units s' k) = pos (units s k)"
proof -
  let ?s1 = "(sim_cancel s k)\<lparr>dt_substate := DTO_SOB\<rparr>"
  have t1: "now ?s1 = LASTT (units ?s1 k)"
    using t by (simp add: sim_cancel_simps)
  have p1: "pos (units ?s1 k) = pos (units s k)"
    by (simp add: sim_cancel_simps)
  have a: "pos (units (dt_newfnc_act ?s1 k f n) k) = pos (units s k)" for f n
    by (simp add: dt_newfnc_act_def Let_def sim_activate_simps DT_UPDINT_simps sim_cancel_simps)
  have z: "pos (units (dt_schedez ?s1 k d) k) = pos (units s k)" for d
    by (simp add: dt_schedez_def Let_def sim_activate_simps sim_cancel_simps)
  have e1: "pos (units s' k) = pos (units s k)" if "dt_seterr ?s1 (Some k) x = Some s'" for x
    using dt_seterr_pos [OF t1 that] by (simp only: p1)
  from e show ?thesis
    unfolding dt_newfnc_sched_def Let_def
    by (auto simp add: a z split: if_splits dest: dt_seterr_pos [OF t] e1)
qed

lemmas dt_states = search_state_def idle_state_def blank_unit_def

section \<open>The timing error\<close>

text \<open>
  Claim C6, as the code has it. A service call for a unit at speed with the function
  SEARCH, READ, READ ALL, WRITE or WRITE ALL, whose position update leaves the unit on
  the reel and outside the end zones, while the data flag is still set: the
  timing error and the error flag are set, the unit is put into deceleration in its
  direction with a deceleration timer, and no word is transferred: the data buffer and
  every unit's image and high-water mark are unchanged.
\<close>

theorem dt_svc_timing_error:
  assumes mot: "DTS_GETMOT (STATE (units s k)) = DTS_ATSF \<or> DTS_GETMOT (STATE (units s k)) = DTS_ATSR"
      and fnc: "DTS_GETFNC (STATE (units s k)) \<in> {FNC_SRCH, FNC_READ, FNC_RALL, FNC_WRIT, FNC_WALL}"
      and dtf: "dtsb s AND DTB_DTF \<noteq> 0"
      and onreel: "dt_setpos s k = Some (False, s1)"
      and notez: "\<not> DT_QEZ (units s1 k)"
  shows "\<exists>s'. dt_svc s k = Some s' \<and>
           dtsb s' = dtsb s OR DTB_ERF OR DTB_TIM \<and>
           dtsb s' AND DTB_TIM \<noteq> 0 \<and> dtsb s' AND DTB_ERF \<noteq> 0 \<and>
           STATE (units s' k) =
             DTS_STA (DTS_DECF OR (DTS_GETMOT (STATE (units s k)) AND DTS_DIR)) 0 \<and>
           timer (units s' k) = Some (now s + dt_dctime s) \<and>
           dtdb s' = dtdb s \<and>
           (\<forall>j. filebuf (units s' j) = filebuf (units s j) \<and>
                hwmark (units s' j) = hwmark (units s j))"
proof -
  from dt_setpos_FalseD [OF onreel] obtain p where
    s1: "s1 = upd_unit s k (\<lambda>u. u\<lparr>LASTT := now s, pos := p\<rparr>)" by blast
  have st: "STATE (units s1 k) = STATE (units s k)" and t1: "now s1 = LASTT (units s1 k)"
    and b1: "dtsb s1 = dtsb s"
    by (simp_all add: s1 upd_unit_def)
  have m4: "4 \<le> DTS_GETMOT (STATE (units s1 k))"
    using mot by (auto simp add: st mot_consts)
  have fn: "dt_svc_fnc s1 k (DTS_GETFNC (STATE (units s k))) dir blk bptr =
            dt_seterr s1 (Some k) DTB_TIM" for dir blk bptr
    using fnc dtf by (auto simp add: dt_svc_fnc_def b1 fnc_consts mot_consts)
  have svc: "dt_svc s k = dt_seterr s1 (Some k) DTB_TIM"
    using mot notez by (auto simp add: dt_svc_def Let_def onreel fn mot_consts)
  have ne: "DTB_TIM \<noteq> 0" "DTB_ERF \<noteq> 0"
    by (simp_all add: DTB_TIM_def DTB_ERF_def)
  show ?thesis
    unfolding svc dt_seterr_moving [OF t1 m4]
    using ne
    by (simp add: DT_UPDINT_simps DTS_SETSTA_def sim_activate_def sim_cancel_def
        upd_unit_def s1 or_and_absorb or_and_absorb2)
qed

theorem dt_svc_timing_error_witness:
  "dt_setpos (search_state\<lparr>now := 72, dtsb := 0x20000\<rparr>) 1 =
     Some (False, search_state\<lparr>now := 72, dtsb := 0x20000,
       units := (units search_state)(1 := (units search_state 1)\<lparr>pos := 40006, LASTT := 72\<rparr>)\<rparr>) \<and>
   dt_svc (search_state\<lparr>now := 72, dtsb := 0x20000\<rparr>) 1 =
     Some (search_state\<lparr>now := 72, dtsa := 0x1001, dtsb := 0x2A000, sbs_rq := True,
       units := (units search_state)(1 := (units search_state 1)
         \<lparr>pos := 40006, LASTT := 72, STATE := 0x10, timer := Some 72072\<rparr>)\<rparr>)"
  using dt_svc_timing_error [of "search_state\<lparr>now := 72, dtsb := 0x20000\<rparr>" 1
      "search_state\<lparr>now := 72, dtsb := 0x20000,
       units := (units search_state)(1 := (units search_state 1)\<lparr>pos := 40006, LASTT := 72\<rparr>)\<rparr>"]
  by (simp add: dt_eval dt_states)

text \<open>
  The two guards that stand before the function case of \<^verbatim>\<open>dt_svc\<close>. A unit at speed
  that the position update leaves in an end zone gets the end of tape error, whatever
  its function and the data flag: it is put into deceleration and no word is
  transferred. A unit that the position update finds off reel is detached, and the
  service call does nothing more; the timing error bit is left as it was.
\<close>

lemma dt_svc_end_zone:
  assumes mot: "DTS_GETMOT (STATE (units s k)) = DTS_ATSF \<or> DTS_GETMOT (STATE (units s k)) = DTS_ATSR"
      and onreel: "dt_setpos s k = Some (False, s1)"
      and ez: "DT_QEZ (units s1 k)"
  shows "\<exists>s'. dt_svc s k = Some s' \<and>
           dtsb s' = dtsb s OR DTB_ERF OR DTB_END \<and>
           STATE (units s' k) =
             DTS_STA (DTS_DECF OR (DTS_GETMOT (STATE (units s k)) AND DTS_DIR)) 0 \<and>
           timer (units s' k) = Some (now s + dt_dctime s) \<and>
           dtdb s' = dtdb s \<and>
           (\<forall>j. filebuf (units s' j) = filebuf (units s j) \<and>
                hwmark (units s' j) = hwmark (units s j))"
proof -
  from dt_setpos_FalseD [OF onreel] obtain p where
    s1: "s1 = upd_unit s k (\<lambda>u. u\<lparr>LASTT := now s, pos := p\<rparr>)" by blast
  have st: "STATE (units s1 k) = STATE (units s k)" and t1: "now s1 = LASTT (units s1 k)"
    by (simp_all add: s1 upd_unit_def)
  have m4: "4 \<le> DTS_GETMOT (STATE (units s1 k))"
    using mot by (auto simp add: st mot_consts)
  have svc: "dt_svc s k = dt_seterr s1 (Some k) DTB_END"
    using mot ez by (auto simp add: dt_svc_def Let_def onreel mot_consts)
  show ?thesis
    unfolding svc dt_seterr_moving [OF t1 m4]
    by (simp add: DT_UPDINT_simps DTS_SETSTA_def sim_activate_def sim_cancel_def
        upd_unit_def s1)
qed

lemma dt_svc_off_reel:
  assumes mot: "DTS_GETMOT (STATE (units s k)) = DTS_ATSF \<or> DTS_GETMOT (STATE (units s k)) = DTS_ATSR"
      and off: "dt_setpos s k = Some (True, s1)"
  shows "dt_svc s k = Some s1 \<and> \<not> u_att (units s1 k) \<and> STATE (units s1 k) = 0 \<and>
         pos (units s1 k) = 0 \<and> dtsb s1 AND DTB_TIM = dtsb s AND DTB_TIM \<and> dtdb s1 = dtdb s \<and>
         (\<forall>j. filebuf (units s1 j) = filebuf (units s j) \<and>
              hwmark (units s1 j) = hwmark (units s j))"
proof -
  have svc: "dt_svc s k = Some s1"
    using mot by (auto simp add: dt_svc_def Let_def off mot_consts)
  have z: "DTB_ERF AND DTB_TIM = 0" "DTB_SEL AND DTB_TIM = 0"
    by (simp_all add: DTB_ERF_def DTB_SEL_def DTB_TIM_def)
  have t: "(x OR DTB_ERF OR DTB_SEL) AND DTB_TIM = x AND DTB_TIM" for x :: int32
    by (simp only: bit.conj_disj_distrib2 z or.right_neutral)
  from off have r: "(dtsb s1 = dtsb s \<or> dtsb s1 = dtsb s OR DTB_ERF OR DTB_SEL) \<and> dtdb s1 = dtdb s \<and>
         (\<forall>j. filebuf (units s1 j) = filebuf (units s j) \<and>
              hwmark (units s1 j) = hwmark (units s j))"
    by (auto simp add: dt_setpos_def Let_def sim_grtime_def detach_unit_def
      dt_seterr_stopped_def DT_UPDINT_def split: option.splits if_splits)
  from dt_setpos_TrueD [OF off] r svc show ?thesis
    by (auto simp add: t)
qed

text \<open>
  Claim C6 as written covers every service call of a unit at speed with one of the five
  functions. Unit 1 searches forward and the host leaves the data flag of the last
  block set; the next service call finds the unit at line 958499, in the forward end
  zone: status B becomes 0540000 (data flag, error flag, end of tape), the timing error
  bit stays clear, and the unit decelerates.
\<close>

theorem dt_svc_end_zone_search:
  "DTS_GETMOT (STATE (units last_block_state 1)) = DTS_ATSF \<and>
   DTS_GETFNC (STATE (units last_block_state 1)) = FNC_SRCH \<and>
   dtsb last_block_state AND DTB_DTF \<noteq> 0 \<and>
   dt_svc last_block_state 1 =
     Some (last_block_state\<lparr>dtsa := 0x1001, dtsb := 0x2C000, sbs_rq := True,
       units := (units last_block_state)(1 := (units last_block_state 1)
         \<lparr>pos := 958499, LASTT := 19152, STATE := 0x10, timer := Some 91152\<rparr>)\<rparr>) \<and>
   (0x2C000 :: int32) AND DTB_TIM = 0 \<and> (0x2C000 :: int32) AND DTB_END \<noteq> 0"
  by (simp add: dt_eval dt_states last_block_state_def)

section \<open>The one-line bump\<close>

text \<open>
  Claim C9. In \<^verbatim>\<open>dt_newfnc\<close>, when the position update returns normally and leaves
  the position where it was, the position is moved by exactly one line in the
  direction of the new state (down if reverse, up if forward) before the end zone
  check and the scheduling, which run on the bumped position; and the position the
  call ends with is the bumped one.
\<close>

theorem dt_newfnc_bump:
  assumes sp: "dt_setpos s k = Some (False, s1)"
      and eq: "pos (units s1 k) = pos (units s k)"
  shows "dt_newfnc s k newsta =
           dt_newfnc_sched
             (upd_unit s1 k (\<lambda>u. u\<lparr>STATE := newsta,
                pos := pos (units s k) + (if DTS_GETMOT newsta AND DTS_DIR \<noteq> 0 then - 1 else 1)\<rparr>)) k
         \<and> (\<forall>s'. dt_newfnc s k newsta = Some s' \<longrightarrow>
               pos (units s' k) =
                 pos (units s k) + (if DTS_GETMOT newsta AND DTS_DIR \<noteq> 0 then - 1 else 1))"
proof -
  let ?s2 = "upd_unit s1 k (\<lambda>u. u\<lparr>STATE := newsta,
                pos := pos (units s k) + (if DTS_GETMOT newsta AND DTS_DIR \<noteq> 0 then - 1 else 1)\<rparr>)"
  have b: "upd_unit s1 k (\<lambda>u. dt_bump (pos (units s k)) (u\<lparr>STATE := newsta\<rparr>)) = ?s2"
    using eq by (simp add: upd_unit_def dt_bump_def Let_def)
  have n: "dt_newfnc s k newsta = dt_newfnc_sched ?s2 k"
    by (simp add: dt_newfnc_def Let_def sp b)
  from dt_setpos_FalseD [OF sp] obtain p where
    s1: "s1 = upd_unit s k (\<lambda>u. u\<lparr>LASTT := now s, pos := p\<rparr>)" by blast
  have t2: "now ?s2 = LASTT (units ?s2 k)"
    by (simp add: s1 upd_unit_def)
  have "pos (units s' k) = pos (units ?s2 k)" if "dt_newfnc_sched ?s2 k = Some s'" for s'
    using dt_newfnc_sched_pos [OF t2 that] .
  then show ?thesis
    unfolding n by (simp add: upd_unit_def)
qed

theorem dt_newfnc_bump_witness:
  "dt_setpos search_state 1 =
     Some (False, search_state\<lparr>units := (units search_state)(1 := (units search_state 1)\<lparr>LASTT := 6\<rparr>)\<rparr>) \<and>
   dt_newfnc search_state 1 0x32 =
     Some (search_state\<lparr>dt_substate := 2,
       units := (units search_state)(1 := (units search_state 1)
         \<lparr>STATE := 0x32, pos := 40001, LASTT := 6, timer := Some 6\<rparr>)\<rparr>)"
  using dt_newfnc_bump [of search_state 1
      "search_state\<lparr>units := (units search_state)(1 := (units search_state 1)\<lparr>LASTT := 6\<rparr>)\<rparr>" "0x32"]
  by (simp add: dt_eval dt_states)

section \<open>The read data pulse\<close>

text \<open>
  Claim C10. A READ DATA pulse (pulse 5) in any prior state returns; it leaves the
  data buffer, status A and every unit as they were, and changes nothing but status B
  and the interrupt request. On an enabled device the returned word is the data
  buffer merged into the caller's word, and status B loses exactly DTF and BEF.
\<close>

theorem dt_read_data_frame:
  assumes "signed_drop_bit 6 IR AND 0x1F = 5"
  shows "\<exists>d s'. dt s IR dat = Some (d, s') \<and>
           s'\<lparr>dtsb := dtsb s, sbs_rq := sbs_rq s\<rparr> = s \<and>
           dtdb s' = dtdb s \<and> dtsa s' = dtsa s \<and> units s' = units s \<and>
           (\<not> dev_dis s \<longrightarrow>
              d = (dat AND NOT DMASK) OR dtdb s \<and>
              dtsb s' = dtsb s AND NOT (DTB_DTF OR DTB_BEF))"
  using assms by (simp add: dt_def Let_def DT_UPDINT_def)

theorem dt_read_data_frame_witness:
  "dt (idle_state\<lparr>dtdb := 0x29C, dtsb := 0x38000\<rparr>) 0x140 0x40000 =
     Some (0x4029C, idle_state\<lparr>dtdb := 0x29C, dtsb := 0x8000, sbs_rq := True\<rparr>)"
  using dt_read_data_frame [of "0x140" "idle_state\<lparr>dtdb := 0x29C, dtsb := 0x38000\<rparr>" "0x40000"]
  by (simp add: dt_eval dt_states)

section \<open>Position arithmetic\<close>

lemma sint_nonneg:
  fixes p :: int32
  assumes "0 \<le> sint p"
  shows "sint p = int (unat p) \<and> unat p < 2147483648"
proof -
  have u: "uint p < 2 ^ 32" using uint_bounded [of p] by simp
  have "sint p = signed_take_bit 31 (uint p)"
    using sint_uint [of p] by simp
  also have "\<dots> = take_bit 32 (uint p) - 2 ^ 32 * of_bool (bit (uint p) 31)"
    using signed_take_bit_eq_take_bit_minus [of 31 "uint p"] by simp
  also have "take_bit 32 (uint p) = uint p"
    using u by (simp add: take_bit_int_eq_self)
  finally have s: "sint p = uint p - 2 ^ 32 * of_bool (bit (uint p) 31)" .
  have nb: "\<not> bit (uint p) 31"
  proof
    assume "bit (uint p) 31"
    with s have "sint p = uint p - 2 ^ 32" by simp
    with u assms show False by simp
  qed
  with s have e: "sint p = uint p" by simp
  have "uint p < 2 ^ 31"
    using sint_lt [of p] e by simp
  then have "unat p < 2147483648"
    by (simp add: unat_eq_nat_uint nat_less_iff del: nat_uint_eq)
  with e show ?thesis by (simp only: uint_nat)
qed

lemma in_range_unat:
  fixes p L :: int32
  assumes "\<not> p <s 0" "\<not> L <s p" "unat L < 2147483648"
  shows "unat p \<le> unat L"
proof -
  from assms(1) have "0 \<le> sint p" by (simp add: word_sless_alt)
  from sint_nonneg [OF this] have p: "sint p = int (unat p)" by simp
  from assms(2) have "sint p \<le> sint L" by (simp add: word_sless_alt)
  then show ?thesis
    by (simp only: p sint_small [OF assms(3)] of_nat_le_iff)
qed

lemma limit_val:
  "unat (DTU_FWDEZ u + DT_EZLIN) < 2147483648" "unat (DTU_FWDEZ u + DT_EZLIN) \<le> 994488"
  by (simp_all add: DTU_FWDEZ_def dt_consts DT_EZLIN_def)

lemma dt_delta_at_speed:
  assumes "mot AND NOT DTS_DIR = DTS_ATSF" "dt_delta s mot ut = Some delta"
  shows "unat delta = unat ut div unat (dt_ltime s)"
  using assms by (auto simp add: dt_delta_def Let_def mot_consts unat_div split: if_splits)

lemma and7_cases: "(x::int32) AND 7 \<in> {0, 1, 2, 3, 4, 5, 6, 7}"
proof -
  let ?w = "x AND 7"
  have "unat ?w \<le> 7"
    using and7_le [of x] by (simp add: word_le_nat_alt)
  then consider "unat ?w = unat (0::int32)" | "unat ?w = unat (1::int32)"
    | "unat ?w = unat (2::int32)" | "unat ?w = unat (3::int32)"
    | "unat ?w = unat (4::int32)" | "unat ?w = unat (5::int32)"
    | "unat ?w = unat (6::int32)" | "unat ?w = unat (7::int32)"
    by simp linarith
  then show ?thesis
    by cases (simp_all only: word_unat_eq_iff [symmetric] insert_iff simp_thms)
qed

lemma layered_decode:
  assumes "pd = 0 \<or> pd = 1" "nd = 0 \<or> nd = 1" "f \<in> {0, 1, 2, 3, 4, 5, 6, 7}"
  shows "DTS_GETMOT (layered (DTS_STA (DTS_DECF OR pd) 0) (DTS_STA (DTS_ACCF OR nd) 0)
           (DTS_STA (DTS_ATSF OR nd) f)) = DTS_DECF OR pd"
    and "DTS_NXTSTA (layered (DTS_STA (DTS_DECF OR pd) 0) (DTS_STA (DTS_ACCF OR nd) 0)
           (DTS_STA (DTS_ATSF OR nd) f)) =
         layered (DTS_STA (DTS_ACCF OR nd) 0) (DTS_STA (DTS_ATSF OR nd) f) 0"
    and "layered (DTS_STA (DTS_ACCF OR nd) 0) (DTS_STA (DTS_ATSF OR nd) f) 0 \<noteq> 0"
    and "DTS_GETMOT (layered (DTS_STA (DTS_ACCF OR nd) 0) (DTS_STA (DTS_ATSF OR nd) f) 0) =
           DTS_ACCF OR nd"
    and "DTS_NXTSTA (layered (DTS_STA (DTS_ACCF OR nd) 0) (DTS_STA (DTS_ATSF OR nd) f) 0) =
           DTS_STA (DTS_ATSF OR nd) f"
    and "DTS_GETMOT (DTS_STA (DTS_ATSF OR nd) f) = DTS_ATSF OR nd"
    and "DTS_GETFNC (DTS_STA (DTS_ATSF OR nd) f) = f"
    and "((DTS_STA (DTS_DECF OR pd) 0 AND 0x3F) OR push_bit DTS_V_2ND (DTS_STA (DTS_ACCF OR nd) 0))
            AND 0xFFF OR push_bit DTS_V_3RD (DTS_STA (DTS_ATSF OR nd) f) =
         layered (DTS_STA (DTS_DECF OR pd) 0) (DTS_STA (DTS_ACCF OR nd) 0)
           (DTS_STA (DTS_ATSF OR nd) f)"
  using assms
  by (auto simp add: layered_def DTS_GETMOT_def DTS_GETFNC_def DTS_NXTSTA_def DTS_STA_def
      DTS_V_MOT_def DTS_V_FNC_def DTS_V_2ND_def DTS_V_3RD_def DTS_M_MOT_def DTS_M_FNC_def
      mot_consts)

lemma unit_index:
  assumes "k < 8"
  shows "\<not> (of_nat k :: int32) <s 0" "0 \<le>s (of_nat k :: int32)" "unat (of_nat k :: int32) = k"
proof -
  show u: "unat (of_nat k :: int32) = k"
    using assms by (simp add: unat_of_nat)
  have b: "unat (of_nat k :: int32) < 2147483648" "unat (0 :: int32) < 2147483648"
    using assms u by simp_all
  show "\<not> (of_nat k :: int32) <s 0"
    by (simp only: sless_small [OF b] not_less word_le_nat_alt) simp
  show "0 \<le>s (of_nat k :: int32)"
    by (simp only: sle_small [OF b(2) b(1)] word_le_nat_alt) simp
qed

lemma b2i_TF: "b2i True = 1" "b2i False = 0"
  by (simp_all add: b2i_def)

lemma b2i_cases: "b2i c = 0 \<or> b2i c = 1"
  by (simp add: b2i_def)

lemma dt_svc_decel:
  assumes m: "DTS_GETMOT (STATE (units s k)) = DTS_DECF \<or> DTS_GETMOT (STATE (units s k)) = DTS_DECR"
      and a: "u_att (units s k)"
      and e: "dt_svc s k = Some s2" and a2: "u_att (units s2 k)"
  shows "\<exists>p. s2 = (let x = upd_unit s k (\<lambda>u. u\<lparr>LASTT := now s, pos := p,
                                  STATE := DTS_NXTSTA (STATE (units s k))\<rparr>)
                  in if DTS_NXTSTA (STATE (units s k)) \<noteq> 0
                     then sim_activate x k (dt_actime s) else x)"
proof (cases "dt_setpos s k")
  case None
  with m e show ?thesis by (auto simp add: dt_svc_def Let_def)
next
  case (Some r)
  obtain b x where r: "r = (b, x)" by (cases r)
  show ?thesis
  proof (cases b)
    case True
    with Some r m e have "s2 = x" by (auto simp add: dt_svc_def Let_def)
    with dt_setpos_TrueD [of s k x] Some r True a2 show ?thesis by simp
  next
    case False
    with Some r have sp: "dt_setpos s k = Some (False, x)" by simp
    from dt_setpos_FalseD [OF sp] obtain p where
      x: "x = upd_unit s k (\<lambda>u. u\<lparr>LASTT := now s, pos := p\<rparr>)" by blast
    from m e sp show ?thesis
      by (intro exI [of _ p])
         (auto simp add: dt_svc_def Let_def x upd_unit_def sim_activate_def)
  qed
qed

lemma dt_svc_accel:
  assumes "DTS_GETMOT (STATE (units s k)) = DTS_ACCF \<or> DTS_GETMOT (STATE (units s k)) = DTS_ACCR"
  shows "dt_svc s k = dt_newfnc s k (DTS_NXTSTA (STATE (units s k)))"
  using assms by (auto simp add: dt_svc_def Let_def mot_consts)

lemma getunit_mlc:
  "DTA_GETUNIT ((a AND NOT DTA_RW) OR (d AND DTA_RW)) = DTA_GETUNIT a"
proof -
  have m: "(0x3F :: int32) = mask 6" "(0xF :: int32) = mask 4"
    by (simp_all add: mask_eq_exp_minus_1)
  have "signed_drop_bit 12 ((a AND NOT (mask 6)) OR (d AND mask 6)) AND mask 4 =
        signed_drop_bit 12 a AND (mask 4 :: int32)"
    by (rule bit_word_eqI) (auto simp add: bit_simps)
  then show ?thesis
    by (simp add: DTA_GETUNIT_def DTA_RW_def DTA_V_UNIT_def DTA_M_UNIT_def m)
qed

lemma getfnc_7: "(FNC_WMRK \<le>s DTA_GETFNC x) = (DTA_GETFNC x = FNC_WMRK)"
  using and7_cases [of x]
  by (auto simp add: DTA_GETFNC_def DTA_V_FNC_def DTA_M_FNC_def fnc_consts word_sle_eq)

lemma dt_setpos_True_regs:
  assumes "dt_setpos s k = Some (True, s')"
  shows "(dtsb s' = dtsb s \<and> dtsa s' = dtsa s) \<or>
         (dtsb s' = dtsb s OR DTB_ERF OR DTB_SEL \<and> dtsa s' = dtsa s AND NOT DTA_STSTP)"
  using assms
  by (auto simp add: dt_setpos_def Let_def sim_grtime_def detach_unit_def
      dt_seterr_stopped_def DT_UPDINT_def split: option.splits if_splits)

lemma or_idem3: "(x OR a OR b) OR a OR b = x OR a OR (b::int32)"
  by (rule bit_word_eqI) (auto simp add: bit_simps)

lemma and_idem2: "(x AND a) AND a = x AND (a::int32)"
  by (rule bit_word_eqI) (auto simp add: bit_simps)

lemma dt_seterr_SEL:
  assumes e: "dt_seterr s (Some k) DTB_SEL = Some s'"
  shows "dtsb s' = dtsb s OR DTB_ERF OR DTB_SEL \<and>
         dtsa s' = dtsa s AND NOT DTA_STSTP \<and>
         (\<forall>j. j \<noteq> k \<longrightarrow> units s' j = units s j) \<and>
         (DTS_GETMOT (STATE (units s k)) < DTS_ACCF \<longrightarrow> units s' = units s) \<and>
         (DTS_ACCF \<le> DTS_GETMOT (STATE (units s k)) \<longrightarrow>
            (STATE (units s' k) =
               DTS_STA (DTS_DECF OR (DTS_GETMOT (STATE (units s k)) AND DTS_DIR)) 0 \<and>
             timer (units s' k) = Some (now s + dt_dctime s)) \<or>
            (\<not> u_att (units s' k) \<and> STATE (units s' k) = 0 \<and> pos (units s' k) = 0))"
proof (cases "4 \<le> DTS_GETMOT (STATE (units s k))")
  case False
  from e show ?thesis
    unfolding dt_seterr_still [OF False]
    using False by (auto simp add: dt_seterr_stopped_def DT_UPDINT_simps mot_consts)
next
  case True
  let ?s1 = "s\<lparr>dtsa := dtsa s AND NOT DTA_STSTP, dtsb := dtsb s OR DTB_ERF OR DTB_SEL\<rparr>"
  let ?c = "sim_cancel ?s1 k"
  have m: "DTS_ACCF \<le>s DTS_GETMOT (STATE (units s k))"
    using True by (simp add: sle_ACCF getmot_le)
  have nl: "\<not> DTS_GETMOT (STATE (units s k)) < DTS_ACCF"
    using True by (simp add: mot_consts)
  show ?thesis
  proof (cases "dt_setpos ?c k")
    case None
    with e m show ?thesis by (simp add: dt_seterr_def Let_def)
  next
    case (Some r)
    obtain b x where r: "r = (b, x)" by (cases r)
    show ?thesis
    proof (cases b)
      case True
      with Some r have sp: "dt_setpos ?c k = Some (True, x)" by simp
      with e m have "s' = x" by (simp add: dt_seterr_def Let_def)
      with dt_setpos_TrueD [OF sp] dt_setpos_True_regs [OF sp] nl show ?thesis
        by (auto simp add: sim_cancel_simps or_idem3 and_idem2)
    next
      case False
      with Some r have sp: "dt_setpos ?c k = Some (False, x)" by simp
      from dt_setpos_FalseD [OF sp] obtain p where
        x: "x = upd_unit ?c k (\<lambda>u. u\<lparr>LASTT := now ?c, pos := p\<rparr>)" by blast
      from e m sp have "s' = DT_UPDINT (DTS_SETSTA (sim_activate x k (dt_dctime x)) k
                 (DTS_DECF OR (DTS_GETMOT (STATE (units s k)) AND DTS_DIR)) 0)"
        by (simp add: dt_seterr_def Let_def)
      then show ?thesis
        using nl
        by (simp add: DT_UPDINT_simps DTS_SETSTA_def sim_activate_def upd_unit_def x
            sim_cancel_def)
    qed
  qed
qed

lemmas dt_states2 = dt_states rsearch_state_def offreel_state_def

section \<open>The load command pulse\<close>

lemma dt_seterr_cases:
  assumes m: "4 \<le> DTS_GETMOT (STATE (units s k))"
  shows "dt_seterr s (Some k) e =
     (case dt_setpos (sim_cancel (s\<lparr>dtsa := dtsa s AND NOT DTA_STSTP, dtsb := dtsb s OR DTB_ERF OR e\<rparr>) k) k of
        None \<Rightarrow> None
      | Some (True, s2) \<Rightarrow> Some s2
      | Some (False, s2) \<Rightarrow>
          Some (DT_UPDINT (DTS_SETSTA (sim_activate s2 k (dt_dctime s2)) k
                  (DTS_DECF OR (DTS_GETMOT (STATE (units s k)) AND DTS_DIR)) 0)))"
  using m by (simp add: dt_seterr_def Let_def sle_ACCF getmot_le)

lemma getunit_ststp: "DTA_GETUNIT (a AND NOT DTA_STSTP) = DTA_GETUNIT a"
proof -
  have m: "(0xF :: int32) = mask 4"
    by (simp add: mask_eq_exp_minus_1)
  have g: "signed_drop_bit 12 (a AND NOT (push_bit n 1)) AND mask 4 =
        signed_drop_bit 12 a AND (mask 4 :: int32)" if "n < 12" for n
    using that by (intro bit_word_eqI) (auto simp add: bit_simps)
  have "DTA_STSTP = push_bit 5 1"
    by (simp add: DTA_STSTP_def DTA_V_MOT_def)
  then show ?thesis
    using g [of 5] by (simp only: DTA_GETUNIT_def DTA_V_UNIT_def DTA_M_UNIT_def m)
qed

lemma erf_set: "(x OR DTB_ERF OR e) AND (DTB_DTF OR DTB_BEF OR DTB_ERF) \<noteq> 0"
proof -
  have "bit ((x OR DTB_ERF OR e) AND (DTB_DTF OR DTB_BEF OR DTB_ERF)) 15"
    by (simp add: bit_simps DTB_DTF_def DTB_BEF_def DTB_ERF_def)
  then show ?thesis by auto
qed

lemma updint_erf:
  "dtsb x = y OR DTB_ERF OR e \<Longrightarrow> DT_UPDINT x = x\<lparr>sbs_rq := True\<rparr>"
  by (simp add: DT_UPDINT_def erf_set)

text \<open>
  Claim C5, as the code has it. A LOAD COMMAND pulse (pulse 4) on an enabled device
  with a valid unit selected loads the command bits and clears the flags. If the
  selected unit is disabled or not attached, or the function is WRITE MARK (7), or it
  is WRITE or WRITE ALL and the unit is write locked, the command is rejected: the
  select error and the error flag are set, the go bit of status A is cleared and the
  interrupt is requested (\<open>e1\<close> is the controller with these bits). A selected unit
  that is stopped or decelerating is left as it is, and nothing else changes. For a
  selected unit that is accelerating or at speed the timer is cancelled and the
  position update runs: if it faults (a division by zero) so does the pulse; if it
  finds the unit off reel, the unit is left as the update left it, detached with state
  and position zero; otherwise the unit, at its updated position, is put into
  deceleration in its direction and the deceleration timer is armed. No other unit and
  not the data buffer is changed. A command that is not rejected is \<^verbatim>\<open>dt_newsa\<close> on
  the loaded command.
\<close>

theorem dt_load_command:
  assumes pulse: "signed_drop_bit 6 IR AND 0x1F = 4"
      and en: "\<not> dev_dis s"
      and unit: "DTA_GETUNIT (dtsa s) = of_nat k" and k8: "k < 8"
  shows "let s1 = s\<lparr>dtsa := (dtsa s AND NOT DTA_RW) OR (dat AND DTA_RW),
                     dtsb := dtsb s AND NOT (DTB_DTF OR DTB_BEF OR DTB_ERF OR DTB_ALLERR)\<rparr>;
             fnc = DTA_GETFNC (dtsa s1);
             u = units s k;
             mot = DTS_GETMOT (STATE u);
             e1 = s1\<lparr>dtsa := dtsa s1 AND NOT DTA_STSTP, dtsb := dtsb s1 OR DTB_ERF OR DTB_SEL\<rparr>
         in if u_dis u \<or> \<not> u_att u \<or> fnc = FNC_WMRK \<or>
               ((fnc = FNC_WRIT \<or> fnc = FNC_WALL) \<and> u_wlk u)
            then if mot < DTS_ACCF
                 then dt s IR dat = Some (dat, e1\<lparr>sbs_rq := True\<rparr>)
                 else (case dt_setpos (sim_cancel e1 k) k of
                         None \<Rightarrow> dt s IR dat = None
                       | Some (off, s2) \<Rightarrow>
                           (\<exists>s'. dt s IR dat = Some (dat, s') \<and>
                                 dtsb s' = dtsb e1 \<and> dtsa s' = dtsa e1 \<and> dtdb s' = dtdb s \<and>
                                 (\<forall>j. j \<noteq> k \<longrightarrow> units s' j = units s j) \<and>
                                 units s' k =
                                   (if off then units s2 k
                                    else (units s2 k)\<lparr>STATE := DTS_STA (DTS_DECF OR (mot AND DTS_DIR)) 0,
                                           timer := Some (now s + dt_dctime s)\<rparr>) \<and>
                                 (off \<longrightarrow> \<not> u_att (units s' k) \<and> STATE (units s' k) = 0 \<and>
                                    pos (units s' k) = 0)))
            else dt s IR dat = map_option (\<lambda>s'. (dat, DT_UPDINT s')) (dt_newsa s1 (dtsa s1))"
proof -
  define s1 where "s1 = s\<lparr>dtsa := (dtsa s AND NOT DTA_RW) OR (dat AND DTA_RW),
                     dtsb := dtsb s AND NOT (DTB_DTF OR DTB_BEF OR DTB_ERF OR DTB_ALLERR)\<rparr>"
  define fnc where "fnc = DTA_GETFNC (dtsa s1)"
  define mot where "mot = DTS_GETMOT (STATE (units s k))"
  define e1 where "e1 = s1\<lparr>dtsa := dtsa s1 AND NOT DTA_STSTP, dtsb := dtsb s1 OR DTB_ERF OR DTB_SEL\<rparr>"
  define c where "c = sim_cancel e1 k"
  define rej where "rej \<longleftrightarrow> u_dis (units s k) \<or> \<not> u_att (units s k) \<or> fnc = FNC_WMRK \<or>
               ((fnc = FNC_WRIT \<or> fnc = FNC_WALL) \<and> u_wlk (units s k))"
  have u1: "units s1 = units s" "now s1 = now s" "dt_dctime s1 = dt_dctime s" "dtdb s1 = dtdb s"
    by (simp_all add: s1_def)
  have ue: "units e1 = units s" "now e1 = now s" "dt_dctime e1 = dt_dctime s" "dtdb e1 = dtdb s"
    "dtsb e1 = dtsb s1 OR DTB_ERF OR DTB_SEL" "dtsa e1 = dtsa s1 AND NOT DTA_STSTP"
    by (simp_all add: e1_def u1)
  have uc: "now c = now s" "dt_dctime c = dt_dctime s" "dtdb c = dtdb s" "dtsb c = dtsb e1"
    "dtsa c = dtsa e1" "\<And>j. j \<noteq> k \<Longrightarrow> units c j = units s j"
    by (simp_all add: c_def sim_cancel_simps ue)
  have gu: "DTA_GETUNIT (dtsa s1) = of_nat k"
    by (simp add: s1_def getunit_mlc unit)
  have d: "dt s IR dat = map_option (\<lambda>s'. (dat, DT_UPDINT s')) (dt_pulse_MLC s (Some k) dat)"
    using pulse en
    by (cases "dt_pulse_MLC s (Some k) dat")
       (simp_all add: dt_def Let_def unit unit_index [OF k8])
  have na: "dt_newsa s1 (dtsa s1) = dt_seterr s1 (Some k) DTB_SEL" if "\<not> u_att (units s k)"
    using that by (simp add: dt_newsa_def Let_def gu unit_index [OF k8] u1)
  have f7: "(FNC_WMRK \<le>s fnc) = (fnc = FNC_WMRK)"
    by (simp only: fnc_def getfnc_7)
  have p: "dt_pulse_MLC s (Some k) dat =
             (if rej then dt_seterr s1 (Some k) DTB_SEL else dt_newsa s1 (dtsa s1))"
    unfolding dt_pulse_MLC_def Let_def s1_def [symmetric] fnc_def [symmetric]
    using na by (auto simp add: f7 rej_def u1)
  have A: "dt s IR dat = map_option (\<lambda>s'. (dat, DT_UPDINT s')) (dt_newsa s1 (dtsa s1))"
    if "\<not> rej"
    using that by (simp only: d p if_False)
  have B: "dt s IR dat = Some (dat, e1\<lparr>sbs_rq := True\<rparr>)" if r: rej and m: "mot < DTS_ACCF"
  proof -
    have "\<not> 4 \<le> DTS_GETMOT (STATE (units s1 k))"
      using m by (simp add: u1 mot_def mot_consts)
    from dt_seterr_still [OF this]
    have "dt_seterr s1 (Some k) DTB_SEL = Some (DT_UPDINT e1)"
      by (simp add: dt_seterr_stopped_def e1_def)
    moreover have "DT_UPDINT e1 = e1\<lparr>sbs_rq := True\<rparr>"
      by (rule updint_erf [OF ue(5)])
    moreover have "DT_UPDINT (e1\<lparr>sbs_rq := True\<rparr>) = e1\<lparr>sbs_rq := True\<rparr>"
      using updint_erf [of "e1\<lparr>sbs_rq := True\<rparr>" "dtsb s1" DTB_SEL] by (simp add: ue)
    ultimately show ?thesis
      using r by (simp add: d p)
  qed
  have m4: "4 \<le> DTS_GETMOT (STATE (units s1 k))" if "\<not> mot < DTS_ACCF"
    using that by (simp add: u1 mot_def mot_consts)
  have se: "dt_seterr s1 (Some k) DTB_SEL =
     (case dt_setpos c k of
        None \<Rightarrow> None
      | Some (True, s2) \<Rightarrow> Some s2
      | Some (False, s2) \<Rightarrow>
          Some (DT_UPDINT (DTS_SETSTA (sim_activate s2 k (dt_dctime s2)) k
                  (DTS_DECF OR (mot AND DTS_DIR)) 0)))" if "\<not> mot < DTS_ACCF"
    using dt_seterr_cases [OF m4 [OF that], of DTB_SEL]
    by (simp only: c_def e1_def mot_def u1)
  have C0: "dt s IR dat = None" if r: rej and m: "\<not> mot < DTS_ACCF" and n: "dt_setpos c k = None"
    using r by (simp add: d p se [OF m] n)
  have C1: "\<exists>s'. dt s IR dat = Some (dat, s') \<and>
               dtsb s' = dtsb e1 \<and> dtsa s' = dtsa e1 \<and> dtdb s' = dtdb s \<and>
               (\<forall>j. j \<noteq> k \<longrightarrow> units s' j = units s j) \<and>
               units s' k = units s2 k \<and>
               \<not> u_att (units s' k) \<and> STATE (units s' k) = 0 \<and> pos (units s' k) = 0"
    if r: rej and m: "\<not> mot < DTS_ACCF" and n: "dt_setpos c k = Some (True, s2)" for s2
  proof -
    have e: "dt s IR dat = Some (dat, DT_UPDINT s2)"
      using r by (simp add: d p se [OF m] n)
    have sel: "of_nat k = DTA_GETUNIT (dtsa c)"
      by (simp add: uc ue getunit_ststp gu)
    from n have regs: "dtsb s2 = dtsb e1 \<and> dtsa s2 = dtsa e1 \<and> dtdb s2 = dtdb s"
      using sel
      by (auto simp add: dt_setpos_def Let_def sim_grtime_def dt_seterr_stopped_def
          DT_UPDINT_simps uc ue or_idem3 and_idem2 split: option.splits if_splits)
    from dt_setpos_TrueD [OF n] regs show ?thesis
      by (simp add: e DT_UPDINT_simps uc)
  qed
  have C2: "\<exists>s'. dt s IR dat = Some (dat, s') \<and>
               dtsb s' = dtsb e1 \<and> dtsa s' = dtsa e1 \<and> dtdb s' = dtdb s \<and>
               (\<forall>j. j \<noteq> k \<longrightarrow> units s' j = units s j) \<and>
               units s' k = (units s2 k)\<lparr>STATE := DTS_STA (DTS_DECF OR (mot AND DTS_DIR)) 0,
                               timer := Some (now s + dt_dctime s)\<rparr>"
    if r: rej and m: "\<not> mot < DTS_ACCF" and n: "dt_setpos c k = Some (False, s2)" for s2
  proof -
    from dt_setpos_FalseD [OF n] obtain q where
      s2: "s2 = upd_unit c k (\<lambda>u. u\<lparr>LASTT := now c, pos := q\<rparr>)" by blast
    have e: "dt s IR dat = Some (dat, DT_UPDINT (DT_UPDINT (DTS_SETSTA
               (sim_activate s2 k (dt_dctime s2)) k (DTS_DECF OR (mot AND DTS_DIR)) 0)))"
      using r by (simp add: d p se [OF m] n)
    show ?thesis
      unfolding e
      by (simp add: DT_UPDINT_simps DTS_SETSTA_def sim_activate_def upd_unit_def s2 uc)
  qed
  show ?thesis
  proof (cases rej)
    case False
    from A [OF False] show ?thesis
      unfolding Let_def s1_def [symmetric] fnc_def [symmetric]
      using False unfolding rej_def by (simp only: if_False simp_thms)
  next
    case True
    note r = True
    show ?thesis
    proof (cases "mot < DTS_ACCF")
      case True
      from B [OF r True] show ?thesis
        unfolding Let_def s1_def [symmetric] fnc_def [symmetric] mot_def [symmetric]
          e1_def [symmetric]
        using r True unfolding rej_def by (simp only: if_True simp_thms)
    next
      case False
      note m = False
      have "case dt_setpos c k of
              None \<Rightarrow> dt s IR dat = None
            | Some (off, s2) \<Rightarrow>
                (\<exists>s'. dt s IR dat = Some (dat, s') \<and>
                      dtsb s' = dtsb e1 \<and> dtsa s' = dtsa e1 \<and> dtdb s' = dtdb s \<and>
                      (\<forall>j. j \<noteq> k \<longrightarrow> units s' j = units s j) \<and>
                      units s' k =
                        (if off then units s2 k
                         else (units s2 k)\<lparr>STATE := DTS_STA (DTS_DECF OR (mot AND DTS_DIR)) 0,
                                timer := Some (now s + dt_dctime s)\<rparr>) \<and>
                      (off \<longrightarrow> \<not> u_att (units s' k) \<and> STATE (units s' k) = 0 \<and>
                         pos (units s' k) = 0))"
      proof (cases "dt_setpos c k")
        case None
        with C0 [OF r m] show ?thesis by simp
      next
        case (Some x)
        obtain off s2 where x: "x = (off, s2)" by (cases x)
        show ?thesis
        proof (cases off)
          case True
          with Some x have "dt_setpos c k = Some (True, s2)" by simp
          from C1 [OF r m this] Some x True show ?thesis by auto
        next
          case False
          with Some x have "dt_setpos c k = Some (False, s2)" by simp
          from C2 [OF r m this] Some x False show ?thesis by auto
        qed
      qed
      then show ?thesis
        unfolding Let_def s1_def [symmetric] fnc_def [symmetric] mot_def [symmetric]
          e1_def [symmetric] c_def [symmetric]
        using r m unfolding rej_def by (simp only: if_True if_False simp_thms)
    qed
  qed
qed

theorem dt_load_command_witness:
  "dt (idle_state\<lparr>dtsa := 0x1000\<rparr>) 0x100 0x27 =
     Some (0x27, idle_state\<lparr>dtsa := 0x1007, dtsb := 0x8200, sbs_rq := True\<rparr>) \<and>
   dt (search_state\<lparr>now := 72\<rparr>) 0x100 0x27 =
     Some (0x27, search_state\<lparr>now := 72, dtsa := 0x1007, dtsb := 0x8200, sbs_rq := True,
       units := (units search_state)(1 := (units search_state 1)
         \<lparr>pos := 40006, STATE := 0x10, LASTT := 72, timer := Some 72072\<rparr>)\<rparr>) \<and>
   dt offreel_state 0x100 0x37 =
     Some (0x37, offreel_state\<lparr>dtsa := 0x1017, dtsb := 0x8200, sbs_rq := True,
       units := (units offreel_state)(1 := (units offreel_state 1)
         \<lparr>u_att := False, pos := 0, STATE := 0, LASTT := 440000, timer := None\<rparr>)\<rparr>)"
  using dt_load_command [of "0x100" "idle_state\<lparr>dtsa := 0x1000\<rparr>" 1 "0x27"]
    dt_load_command [of "0x100" "search_state\<lparr>now := 72\<rparr>" 1 "0x27"]
    dt_load_command [of "0x100" offreel_state 1 "0x37"]
  by (simp add: dt_eval dt_states2)

text \<open>
  Claim C5 as written says that the rejected command changes the motion of no unit.
  A WRITE MARK command to a unit searching at speed sets the select error and puts
  the unit into deceleration: its state goes from 061 (at speed forward, search) to
  020 (decelerating forward) and its timer is replaced by the deceleration timer.
\<close>

theorem dt_load_command_moving:
  "dt search_state 0x100 0x27 =
     Some (0x27, search_state\<lparr>dtsa := 0x1007, dtsb := 0x8200, sbs_rq := True,
       units := (units search_state)(1 := (units search_state 1)
         \<lparr>STATE := 0x10, LASTT := 6, timer := Some 72006\<rparr>)\<rparr>) \<and>
   STATE (units search_state 1) = 0x31 \<and> timer (units search_state 1) = Some 18000"
  by (simp add: dt_eval dt_states)

section \<open>Reversal of a unit at speed\<close>

text \<open>
  Claim C7, as the code has it. \<^verbatim>\<open>dt_newsa\<close> for an attached unit at speed, with a
  command that keeps it moving in the opposite direction, when the position update
  leaves the unit on the reel: the position is the updated one, the timer is replaced
  by one due a deceleration time ahead, and the state is layered as current =
  decelerating in the previous direction, next = accelerating in the new direction,
  next-next = at speed in the new direction with the new function. When that timer
  fires and the unit is still on the reel, the state is shifted down and a timer is
  armed an acceleration time ahead; when this one fires, the service routine is
  \<^verbatim>\<open>dt_newfnc\<close> with the at speed state: the first at speed event comes a
  deceleration time plus an acceleration time after the command.
\<close>

theorem dt_newsa_reverse:
  assumes unit: "DTA_GETUNIT newf = of_nat k" and k8: "k < 8"
      and att: "u_att (units s k)"
      and ats: "DTS_GETMOT (STATE (units s k)) = DTS_ATSF \<or>
                DTS_GETMOT (STATE (units s k)) = DTS_ATSR"
      and go: "newf AND DTA_STSTP \<noteq> 0"
      and opp: "b2i (newf AND DTA_FWDRV \<noteq> 0) \<noteq> DTS_GETMOT (STATE (units s k)) AND DTS_DIR"
      and sp: "dt_setpos s k = Some (False, s1)"
  shows "let pd = DTS_GETMOT (STATE (units s k)) AND DTS_DIR;
             nd = b2i (newf AND DTA_FWDRV \<noteq> 0);
             fnc = DTA_GETFNC newf;
             st = layered (DTS_STA (DTS_DECF OR pd) 0) (DTS_STA (DTS_ACCF OR nd) 0)
                    (DTS_STA (DTS_ATSF OR nd) fnc);
             s' = upd_unit s1 k (\<lambda>u. u\<lparr>timer := Some (now s + dt_dctime s), STATE := st\<rparr>)
         in dt_newsa s newf = Some s' \<and>
            DTS_GETMOT st = DTS_DECF OR pd \<and>
            DTS_GETMOT (DTS_NXTSTA st) = DTS_ACCF OR nd \<and>
            DTS_GETMOT (DTS_NXTSTA (DTS_NXTSTA st)) = DTS_ATSF OR nd \<and>
            DTS_GETFNC (DTS_NXTSTA (DTS_NXTSTA st)) = fnc \<and>
            (\<forall>s2. sim_event s' k = Some s2 \<and> u_att (units s2 k) \<longrightarrow>
               STATE (units s2 k) = DTS_NXTSTA st \<and>
               timer (units s2 k) = Some (now s + dt_dctime s + dt_actime s) \<and>
               sim_event s2 k =
                 dt_newfnc ((sim_cancel s2 k)\<lparr>now := now s + dt_dctime s + dt_actime s\<rparr>) k
                   (DTS_STA (DTS_ATSF OR nd) fnc))"
proof -
  define pd where "pd = DTS_GETMOT (STATE (units s k)) AND DTS_DIR"
  define nd where "nd = b2i (newf AND DTA_FWDRV \<noteq> 0)"
  define fnc where "fnc = DTA_GETFNC newf"
  define st where "st = layered (DTS_STA (DTS_DECF OR pd) 0) (DTS_STA (DTS_ACCF OR nd) 0)
                    (DTS_STA (DTS_ATSF OR nd) fnc)"
  define st2 where "st2 = layered (DTS_STA (DTS_ACCF OR nd) 0) (DTS_STA (DTS_ATSF OR nd) fnc) 0"
  define s' where "s' = upd_unit s1 k (\<lambda>u. u\<lparr>timer := Some (now s + dt_dctime s), STATE := st\<rparr>)"
  have pd01: "pd = 0 \<or> pd = 1"
    using ats by (auto simp add: pd_def mot_consts)
  have nd01: "nd = 0 \<or> nd = 1"
    unfolding nd_def by (rule b2i_cases)
  have f8: "fnc \<in> {0, 1, 2, 3, 4, 5, 6, 7}"
    unfolding fnc_def DTA_GETFNC_def DTA_V_FNC_def DTA_M_FNC_def
    using and7_cases [of newf] by simp
  note L = layered_decode [OF pd01 nd01 f8]
  have L1: "DTS_GETMOT st = DTS_DECF OR pd" and L2: "DTS_NXTSTA st = st2" and L3: "st2 \<noteq> 0"
    and L4: "DTS_GETMOT st2 = DTS_ACCF OR nd"
    and L5: "DTS_NXTSTA st2 = DTS_STA (DTS_ATSF OR nd) fnc"
    unfolding st_def st2_def by (rule L)+
  from dt_setpos_FalseD [OF sp] obtain p where
    s1: "s1 = upd_unit s k (\<lambda>u. u\<lparr>LASTT := now s, pos := p\<rparr>)" by blast
  have rs: "dt_resched s k (dt_dctime s) = Some (False, sim_activate (sim_cancel s1 k) k (dt_dctime s))"
    by (simp add: dt_resched_def sp)
  have mv: "DTS_GETMOT (STATE (units s k)) \<noteq> DTS_STOP"
    "DTS_GETMOT (STATE (units s k)) AND NOT DTS_DIR \<noteq> DTS_DECF"
    using ats by (auto simp add: mot_consts)
  have x: "pd XOR nd \<noteq> 0"
    using pd01 nd01 opp by (auto simp add: pd_def nd_def)
  have fin: "DTS_SET3RD (DTS_SET2ND (DTS_SETSTA (sim_activate (sim_cancel s1 k) k (dt_dctime s)) k
                (DTS_DECF OR pd) 0) k (DTS_ACCF OR nd) 0) k (DTS_ATSF OR nd) fnc = s'"
    by (simp add: DTS_SET3RD_def DTS_SET2ND_def DTS_SETSTA_def sim_activate_def sim_cancel_def
        upd_unit_def s'_def st_def L(8) s1)
  have pm: "b2i (DTS_GETMOT (STATE (units s k)) \<noteq> DTS_STOP) = 1"
    using mv by (simp add: b2i_def)
  have nm: "b2i (newf AND DTA_STSTP \<noteq> 0) = 1"
    using go by (simp add: b2i_def)
  have A: "dt_newsa s newf = Some s'"
    using x
    by (simp add: dt_newsa_def Let_def unit unit_index [OF k8] att mv pm nm rs fin b2i_TF
        flip: pd_def nd_def fnc_def)
  have B: "STATE (units s2 k) = st2 \<and>
           timer (units s2 k) = Some (now s + dt_dctime s + dt_actime s) \<and>
           sim_event s2 k =
             dt_newfnc ((sim_cancel s2 k)\<lparr>now := now s + dt_dctime s + dt_actime s\<rparr>) k
               (DTS_STA (DTS_ATSF OR nd) fnc)"
    if e: "sim_event s' k = Some s2" and a2: "u_att (units s2 k)" for s2
  proof -
    define S where "S = (sim_cancel s' k)\<lparr>now := now s + dt_dctime s\<rparr>"
    have tm: "timer (units s' k) = Some (now s + dt_dctime s)"
      by (simp add: s'_def upd_unit_def)
    have e2: "dt_svc S k = Some s2"
      using e by (simp add: sim_event_def tm S_def)
    have sS: "STATE (units S k) = st" "u_att (units S k)" "now S = now s + dt_dctime s"
      "dt_actime S = dt_actime s"
      using att by (simp_all add: S_def s'_def s1 upd_unit_def sim_cancel_def)
    have "DTS_GETMOT (STATE (units S k)) = DTS_DECF OR pd"
      by (simp only: sS L1)
    then have mS: "DTS_GETMOT (STATE (units S k)) = DTS_DECF \<or>
              DTS_GETMOT (STATE (units S k)) = DTS_DECR"
      using pd01 by (auto simp only: mot_consts) simp_all
    from dt_svc_decel [OF mS sS(2) e2 a2] obtain q where
      s2: "s2 = sim_activate (upd_unit S k (\<lambda>u. u\<lparr>LASTT := now S, pos := q, STATE := st2\<rparr>)) k
                  (dt_actime s)"
      by (auto simp add: sS L2 L3 Let_def)
    have st2': "STATE (units s2 k) = st2"
      and tm2: "timer (units s2 k) = Some (now s + dt_dctime s + dt_actime s)"
      by (simp_all add: s2 sim_activate_def upd_unit_def sS)
    define T where "T = (sim_cancel s2 k)\<lparr>now := now s + dt_dctime s + dt_actime s\<rparr>"
    have sT: "STATE (units T k) = st2"
      by (simp add: T_def sim_cancel_def upd_unit_def st2')
    have "DTS_GETMOT (STATE (units T k)) = DTS_ACCF OR nd"
      by (simp only: sT L4)
    then have mT: "DTS_GETMOT (STATE (units T k)) = DTS_ACCF \<or>
              DTS_GETMOT (STATE (units T k)) = DTS_ACCR"
      using nd01 by (auto simp only: mot_consts) simp_all
    have "sim_event s2 k = dt_svc T k"
      by (simp add: sim_event_def tm2 T_def)
    also have "\<dots> = dt_newfnc T k (DTS_STA (DTS_ATSF OR nd) fnc)"
      by (simp only: dt_svc_accel [OF mT] sT L5)
    finally show ?thesis
      using st2' tm2 by (simp add: T_def)
  qed
  show ?thesis
    unfolding Let_def
    using A B L1 L4 L(6) L(7)
    by (simp add: L2 L5 flip: pd_def nd_def fnc_def st_def s'_def)
qed

theorem dt_newsa_reverse_witness:
  "dt_newsa search_state 0x1032 =
     Some (search_state\<lparr>units := (units search_state)(1 := (units search_state 1)
       \<lparr>STATE := 0x3AA10, LASTT := 6, timer := Some 72006\<rparr>)\<rparr>)"
  using dt_newsa_reverse [of "0x1032" 1 search_state
      "search_state\<lparr>units := (units search_state)(1 := (units search_state 1)\<lparr>LASTT := 6\<rparr>)\<rparr>"]
  by (simp add: dt_eval dt_states)

text \<open>
  Claim C7 as written fails when the position update of the command finds the unit off
  reel. Unit 1 searches in reverse at speed; the host selects unit 2, which sends
  unit 1 off reel, and selects unit 1 again later; the command to move forward then
  finds unit 1 past the start of the tape: the unit is detached with state and position
  zero, no deceleration timer is armed, and the select error is raised.
\<close>

theorem dt_reverse_off_reel:
  "dt rsearch_state 0xC0 0x2000 = Some (0x2000, offreel_state\<lparr>dtsa := 0x2031, now := 0\<rparr>) \<and>
   dt (offreel_state\<lparr>dtsa := 0x2031\<rparr>) 0xC0 0x1000 = Some (0x1000, offreel_state) \<and>
   dt offreel_state 0x100 0x20 =
     Some (0x20, offreel_state\<lparr>dtsa := 0x1000, dtsb := 0x8200, sbs_rq := True,
       units := (units offreel_state)(1 := (units offreel_state 1)
         \<lparr>u_att := False, STATE := 0, pos := 0, LASTT := 440000\<rparr>)\<rparr>) \<and>
   DTS_GETMOT (STATE (units offreel_state 1)) = DTS_ATSR"
  by (simp add: dt_eval dt_states2)

section \<open>Motion at speed\<close>

text \<open>
  Claim C8, as the code has it. One position update (\<^verbatim>\<open>dt_setpos\<close>) of a unit at
  speed that was within the tape, does not go off reel, and whose elapsed lines fit a
  signed 32-bit integer: the position changes by exactly (now - last time) div line
  time lines, upwards when the direction bit is clear and downwards when it is set.
\<close>

theorem dt_setpos_at_speed:
  assumes mot: "DTS_GETMOT (STATE (units s k)) AND NOT DTS_DIR = DTS_ATSF"
      and sp: "dt_setpos s k = Some (False, s')"
      and inr: "pos (units s k) \<le> DTU_FWDEZ (units s k) + DT_EZLIN"
      and fit: "unat (now s - LASTT (units s k)) div unat (dt_ltime s) < 2147483648"
  shows "int (unat (pos (units s' k))) =
           int (unat (pos (units s k))) +
             (if DTS_GETMOT (STATE (units s k)) AND DTS_DIR \<noteq> 0 then - 1 else 1) *
               int (unat (now s - LASTT (units s k)) div unat (dt_ltime s))"
proof -
  let ?u = "units s k"
  let ?n = "unat (now s - LASTT ?u) div unat (dt_ltime s)"
  from dt_setpos_FalseD [OF sp] obtain p where
    s': "s' = upd_unit s k (\<lambda>u. u\<lparr>LASTT := now s, pos := p\<rparr>)"
    and z: "now s = LASTT ?u \<longrightarrow> p = pos ?u"
    and nz: "now s \<noteq> LASTT ?u \<longrightarrow>
                \<not> p <s 0 \<and> \<not> (DTU_FWDEZ ?u + DT_EZLIN) <s p \<and>
                (\<exists>delta. dt_delta s (DTS_GETMOT (STATE ?u)) (now s - LASTT ?u) = Some delta \<and>
                   p = (if DTS_GETMOT (STATE ?u) AND DTS_DIR \<noteq> 0
                        then pos ?u - delta else pos ?u + delta))"
    by blast
  have pp: "pos (units s' k) = p" by (simp add: s' upd_unit_def)
  show ?thesis
  proof (cases "now s = LASTT ?u")
    case True
    with z show ?thesis by (simp add: pp)
  next
    case False
    with nz obtain delta where
      r1: "\<not> p <s 0" and r2: "\<not> (DTU_FWDEZ ?u + DT_EZLIN) <s p"
      and d: "dt_delta s (DTS_GETMOT (STATE ?u)) (now s - LASTT ?u) = Some delta"
      and p: "p = (if DTS_GETMOT (STATE ?u) AND DTS_DIR \<noteq> 0
                   then pos ?u - delta else pos ?u + delta)"
      by blast
    have ud: "unat delta = ?n" by (rule dt_delta_at_speed [OF mot d])
    have pl: "unat p \<le> 994488"
      using in_range_unat [OF r1 r2 limit_val(1)] limit_val(2) [of ?u] by linarith
    have ol: "unat (pos ?u) \<le> 994488"
      using inr limit_val(2) [of ?u] by (simp add: word_le_nat_alt)
    show ?thesis
    proof (cases "DTS_GETMOT (STATE ?u) AND DTS_DIR \<noteq> 0")
      case True
      with p have pe: "p = pos ?u - delta" by simp
      have "unat delta \<le> unat (pos ?u)"
      proof (rule ccontr)
        assume "\<not> unat delta \<le> unat (pos ?u)"
        then have "unat p = unat (pos ?u) + 2 ^ 32 - unat delta"
          by (simp add: pe unat_sub_if_size word_size)
        with fit ud pl show False by simp
      qed
      then have "unat p = unat (pos ?u) - unat delta"
        by (simp add: pe unat_sub_if_size word_size)
      with \<open>unat delta \<le> unat (pos ?u)\<close> True show ?thesis
        by (simp add: pp ud)
    next
      case False
      with p have pe: "p = pos ?u + delta" by simp
      have "unat p = unat (pos ?u) + unat delta"
        using ol fit ud by (simp add: pe unat_word_ariths)
      with False show ?thesis by (simp add: pp ud)
    qed
  qed
qed

theorem dt_setpos_at_speed_witness:
  "dt_setpos (search_state\<lparr>now := 72\<rparr>) 1 =
     Some (False, search_state\<lparr>now := 72,
       units := (units search_state)(1 := (units search_state 1)\<lparr>pos := 40006, LASTT := 72\<rparr>)\<rparr>) \<and>
   unat (now (search_state\<lparr>now := 72\<rparr>) - LASTT (units search_state 1)) div
     unat (dt_ltime search_state) = 6"
  using dt_setpos_at_speed [of "search_state\<lparr>now := 72\<rparr>" 1
      "search_state\<lparr>now := 72,
       units := (units search_state)(1 := (units search_state 1)\<lparr>pos := 40006, LASTT := 72\<rparr>)\<rparr>"]
  by (simp add: dt_eval dt_states)

text \<open>
  Claim C8 as written covers every interval in which the unit stays at speed without
  error. A command that changes the function of a unit at speed six ticks after its
  last update moves the position by one line (the bump of \<^verbatim>\<open>dt_newfnc\<close>), while
  (t1 - t0) div line time is 0; the unit stays at speed and no error is raised.
\<close>

theorem dt_at_speed_bump:
  "dt search_state 0x100 0x22 =
     Some (0x22, search_state\<lparr>dtsa := 0x1022, dt_substate := 2,
       units := (units search_state)(1 := (units search_state 1)
         \<lparr>STATE := 0x32, pos := 40001, LASTT := 6, timer := Some 6\<rparr>)\<rparr>) \<and>
   pos (units search_state 1) = 40000 \<and> STATE (units search_state 1) = 0x31 \<and>
   unat (now search_state - LASTT (units search_state 1)) div unat (dt_ltime search_state) = 0"
  by (simp add: dt_eval dt_states)

section \<open>The read all pass in both directions\<close>

lemma geom:
  "unat (DTU_LPERB u) = 6 * unat (2 * DT_HTWRD + DTU_BSIZE u)"
  "unat (DTU_LPERB u) \<le> 1596" "60 < unat (DTU_LPERB u)"
  "unat (DTU_TSIZE u) * unat (DTU_LPERB u) + 36000 = unat (DTU_FWDEZ u)"
  "unat (DTU_FWDEZ u) \<le> 958488"
  "unat (DTU_BSIZE u) * 6 + 60 = unat (DTU_LPERB u)"
  "unat (DTU_TSIZE u) * unat (DTU_BSIZE u) = unat (DTU_CAPAC u)"
  "unat (DTU_TSIZE u) \<le> 1474" "unat (DTU_CAPAC u) < 2147483648"
  by (simp_all add: DTU_LPERB_def DTU_BSIZE_def DTU_TSIZE_def DTU_FWDEZ_def DTU_CAPAC_def
      dt_consts D18_BSIZE_def D18_TSIZE_def D8_BSIZE_def D8_TSIZE_def)

lemma lin2:
  assumes blk: "blk < DTU_TSIZE u" and m: "m < unat (DTU_LPERB u)"
  defines "p \<equiv> DT_BLK2LN blk u + of_nat m"
  shows "unat p = 36000 + unat blk * unat (DTU_LPERB u) + m"
    and "DT_LIN2BL p u = blk"
    and "DT_LIN2OF p u = of_nat m"
    and "36000 \<le> unat p" and "unat p < unat (DTU_FWDEZ u)"
proof -
  let ?L = "unat (DTU_LPERB u)"
  have b: "unat blk < unat (DTU_TSIZE u)"
    using blk by (simp add: word_less_nat_alt)
  have bl: "unat blk * ?L + m < unat (DTU_TSIZE u) * ?L"
  proof -
    have "unat blk * ?L + m < unat blk * ?L + ?L" using m by simp
    also have "\<dots> = Suc (unat blk) * ?L" by simp
    also have "\<dots> \<le> unat (DTU_TSIZE u) * ?L"
      using b by (intro mult_le_mono1) simp
    finally show ?thesis .
  qed
  have tl: "unat (DTU_TSIZE u) * ?L \<le> 958488 - 36000"
    using geom(4) [of u] geom(5) [of u] by linarith
  have um: "unat (of_nat m :: int32) = m"
    using m geom(2) [of u] by (simp add: unat_of_nat)
  have ubl: "unat (blk * DTU_LPERB u) = unat blk * ?L"
    using bl tl by (simp add: unat_word_ariths)
  have q: "unat (blk * DTU_LPERB u + of_nat m) = unat blk * ?L + m"
    using bl tl by (simp add: unat_word_ariths ubl um)
  show up: "unat p = 36000 + unat blk * ?L + m"
    using bl tl by (simp add: p_def DT_BLK2LN_def DT_EZLIN_def unat_word_ariths ubl um)
  have pe: "p - DT_EZLIN = blk * DTU_LPERB u + of_nat m"
    by (simp add: p_def DT_BLK2LN_def)
  have "unat (DT_LIN2BL p u) = unat blk"
    using m by (simp add: DT_LIN2BL_def pe unat_div q)
  then show "DT_LIN2BL p u = blk"
    by (simp add: word_unat_eq_iff)
  have "unat (DT_LIN2OF p u) = m"
    using m by (simp add: DT_LIN2OF_def pe unat_mod q)
  then show "DT_LIN2OF p u = of_nat m"
    by (simp add: word_unat_eq_iff um)
  show "36000 \<le> unat p" by (simp add: up)
  show "unat p < unat (DTU_FWDEZ u)"
    using bl geom(4) [of u] by (simp add: up)
qed

lemma wpb_val: "words_per_block u = unat (DTU_BSIZE u) + 10" "6 * words_per_block u = unat (DTU_LPERB u)"
  by (simp_all add: words_per_block_def DTU_LPERB_def DTU_BSIZE_def dt_consts D18_BSIZE_def D8_BSIZE_def)

lemma setpos_word:
  assumes mot: "DTS_GETMOT (STATE (units s k)) = DTS_ATSF OR d" and d: "d = 0 \<or> d = 1"
      and el: "now s - LASTT (units s k) = DT_WSIZE * dt_ltime s"
      and lt: "0 < unat (dt_ltime s)" "unat (dt_ltime s) * 6 < 2147483648"
      and p: "pos (units s k) + (if d = 0 then 6 else - 6) = p'"
      and r: "unat p' < unat (DTU_FWDEZ (units s k))"
  shows "dt_setpos s k = Some (False, upd_unit s k (\<lambda>u. u\<lparr>LASTT := now s, pos := p'\<rparr>))"
proof -
  let ?u = "units s k"
  let ?L = "dt_ltime s"
  have ut: "unat (DT_WSIZE * ?L) = 6 * unat ?L"
    using lt by (simp add: DT_WSIZE_def unat_word_ariths)
  have nz: "now s - LASTT ?u \<noteq> 0"
    using ut lt by (auto simp add: el word_unat_eq_iff)
  have l0: "?L \<noteq> 0" using lt by (auto simp add: word_unat_eq_iff)
  have "unat ((DT_WSIZE * ?L) div ?L) = unat (6 :: int32)"
    using lt by (simp add: unat_div ut)
  then have dv: "(DT_WSIZE * ?L) div ?L = 6"
    by (simp only: word_unat_eq_iff)
  have m6: "(DTS_ATSF OR d) AND NOT DTS_DIR = DTS_ATSF" "(DTS_ATSF OR d) AND DTS_DIR = d"
    using d by (auto simp add: mot_consts)
  have dl: "dt_delta s (DTS_ATSF OR d) (DT_WSIZE * ?L) = Some 6"
    using d by (auto simp add: dt_delta_def Let_def mot_consts l0 dv)
  have pp: "(if d \<noteq> 0 then pos ?u - 6 else pos ?u + 6) = p'"
    using p by auto
  have b: "unat p' < 2147483648" "unat (0::int32) < 2147483648"
    "unat (DTU_FWDEZ ?u + DT_EZLIN) < 2147483648"
    using r limit_val(1) [of ?u] geom(5) [of ?u] by simp_all
  have le: "unat p' \<le> unat (DTU_FWDEZ ?u + DT_EZLIN)"
    using r by (simp add: DTU_FWDEZ_def dt_consts DT_EZLIN_def split: if_splits)
  have r1: "\<not> p' <s 0"
    by (simp add: sless_small [OF b(1) b(2)] word_less_nat_alt)
  have r2: "\<not> (DTU_FWDEZ ?u + DT_EZLIN) <s p'"
    using le by (simp add: sless_small [OF b(3) b(1)] word_less_nat_alt)
  have nz': "now s \<noteq> LASTT ?u" "DT_WSIZE * ?L \<noteq> 0"
    using nz by (auto simp add: el [symmetric])
  show ?thesis
    using nz' r1 r2
    by (simp add: dt_setpos_def Let_def sim_grtime_def mot el dl m6 pp upd_unit_def DTU_FWDEZ_def)
qed

lemma dt_csum_total:
  assumes len: "length (filebuf u) = unat (DTU_CAPAC u)" and blk: "blk < DTU_TSIZE u"
  shows "\<exists>c. dt_csum u blk = Some c"
proof -
  let ?b = "DTU_BSIZE u"
  have bnd: "unat blk * unat ?b + unat ?b \<le> length (filebuf u) \<and> length (filebuf u) < 2147483648"
    using blk len
    by (cases "u_8fmt u")
       (simp_all add: DTU_BSIZE_def DTU_TSIZE_def DTU_CAPAC_def dt_consts D18_BSIZE_def
          D18_TSIZE_def D8_BSIZE_def D8_TSIZE_def word_less_nat_alt)
  then have ub: "unat (blk * ?b) = unat blk * unat ?b"
    by (simp add: unat_word_ariths)
  have "dt_csum_loop (filebuf u) (blk * ?b) (unat ?b) 0 0x3FFFF =
          Some (foldl csum_step 0x3FFFF (take (unat ?b) (drop (unat blk * unat ?b) (filebuf u))))"
    using bnd by (subst csum_loop_eq) (simp_all add: ub)
  then show ?thesis
    by (simp add: dt_csum_def Let_def)
qed

lemma of_nat_div6:
  assumes "m < 2147483648"
  shows "sdiv32 (of_nat m) DT_WSIZE = of_nat (m div 6)" "unat (of_nat m :: int32) = m"
    "unat (of_nat (m div 6) :: int32) = m div 6"
proof -
  show u: "unat (of_nat m :: int32) = m"
    using assms by (simp add: unat_of_nat)
  have v: "unat (of_nat (m div 6) :: int32) = m div 6"
    using assms by (simp add: unat_of_nat)
  then show "unat (of_nat (m div 6) :: int32) = m div 6" .
  have "unat ((of_nat m :: int32) div DT_WSIZE) = unat (of_nat (m div 6) :: int32)"
    by (simp only: unat_div u v) (simp add: DT_WSIZE_def)
  then have "(of_nat m :: int32) div DT_WSIZE = of_nat (m div 6)"
    by (simp only: word_unat_eq_iff)
  then show "sdiv32 (of_nat m) DT_WSIZE = of_nat (m div 6)"
    using assms by (simp add: sdiv32_small u)
qed

lemma dt_gethdr_word:
  assumes len: "length (filebuf u) = unat (DTU_CAPAC u)" and blk: "blk < DTU_TSIZE u"
      and m: "m < 2147483648"
  shows "dt_gethdr u blk (of_nat m) = Some (hdr_word u blk (m div 6))"
proof -
  have a: "sdiv32 (of_nat (6 * (m div 6))) DT_WSIZE = of_nat (m div 6)"
    using m of_nat_div6(1) [of "6 * (m div 6)"] by simp
  have e: "dt_gethdr u blk (of_nat (6 * (m div 6))) = dt_gethdr u blk (of_nat m)"
    unfolding dt_gethdr_def a of_nat_div6(1) [OF m] ..
  obtain c where c: "dt_csum u blk = Some c"
    using dt_csum_total [OF len blk] ..
  have "\<exists>x. dt_gethdr u blk (of_nat m) = Some x"
    by (simp add: dt_gethdr_def Let_def c)
  then obtain x where x: "dt_gethdr u blk (of_nat m) = Some x" ..
  show ?thesis
    unfolding hdr_word_def e x by simp
qed

lemma fmt_cong:
  assumes "u_8fmt v = u_8fmt u"
  shows "DTU_BSIZE v = DTU_BSIZE u" "DTU_TSIZE v = DTU_TSIZE u" "DTU_LPERB v = DTU_LPERB u"
    "DTU_FWDEZ v = DTU_FWDEZ u" "DTU_CAPAC v = DTU_CAPAC u" "DT_BLK2LN b v = DT_BLK2LN b u"
    "DT_LIN2OF p v = DT_LIN2OF p u" "DT_LIN2BL p v = DT_LIN2BL p u" "DT_LIN2WD p v = DT_LIN2WD p u"
    "words_per_block v = words_per_block u"
  using assms
  by (simp_all add: DTU_BSIZE_def DTU_TSIZE_def DTU_LPERB_def DTU_FWDEZ_def DTU_CAPAC_def
      DT_BLK2LN_def DT_LIN2OF_def DT_LIN2BL_def DT_LIN2WD_def words_per_block_def)

lemma delivered_cong:
  assumes "u_8fmt v = u_8fmt u" "filebuf v = filebuf u"
  shows "raw_word v blk w = raw_word u blk w" "delivered d v blk w = delivered d u blk w"
  using assms
  by (simp_all add: delivered_def raw_word_def hdr_word_def dt_gethdr_def dt_csum_def Let_def
      fmt_cong [OF assms(1)])

lemma unit_zone:
  assumes m: "m < unat (DTU_LPERB v)"
  shows "(DT_HTLIN \<le>s (of_nat m :: int32) \<and> (of_nat m :: int32) <s DTU_LPERB v - DT_HTLIN) =
           (5 \<le> m div 6 \<and> m div 6 < unat (DTU_BSIZE v) + 5)"
proof -
  have m31: "m < 2147483648" using m geom(2) [of v] by simp
  have um: "unat (of_nat m :: int32) = m" by (rule of_nat_div6(2) [OF m31])
  have h: "unat DT_HTLIN = 30" by (simp add: DT_HTLIN_def)
  have l: "unat (DTU_LPERB v - DT_HTLIN) = unat (DTU_BSIZE v) * 6 + 30"
    by (simp add: DTU_LPERB_def DTU_BSIZE_def dt_consts DT_HTLIN_def D18_BSIZE_def D8_BSIZE_def)
  have l31: "unat (DTU_LPERB v - DT_HTLIN) < 2147483648"
    by (simp add: DTU_LPERB_def DTU_BSIZE_def dt_consts DT_HTLIN_def D18_BSIZE_def D8_BSIZE_def)
  have a: "(DT_HTLIN \<le>s (of_nat m :: int32)) = (30 \<le> m)"
    by (subst sle_small) (simp_all add: h um m31 word_le_nat_alt)
  have b: "((of_nat m :: int32) <s DTU_LPERB v - DT_HTLIN) = (m < unat (DTU_BSIZE v) * 6 + 30)"
    using l31 by (subst sless_small) (simp_all add: um m31 word_less_nat_alt l)
  show ?thesis
    unfolding a b by presburger
qed

lemma unit_data:
  assumes len: "length (filebuf v) = unat (DTU_CAPAC v)" and blk: "blk < DTU_TSIZE v"
      and m: "m < unat (DTU_LPERB v)" and pos: "pos v = DT_BLK2LN blk v + of_nat m"
      and z: "5 \<le> m div 6" "m div 6 < unat (DTU_BSIZE v) + 5"
  shows "rd_u (filebuf v) (blk * DTU_BSIZE v + DT_LIN2WD (pos v) v) = Some (raw_word v blk (m div 6))"
proof -
  let ?b = "DTU_BSIZE v"
  have m31: "m < 2147483648" using m geom(2) [of v] by simp
  have m30: "30 \<le> m" using z by presburger
  have rel: "DT_LIN2OF (pos v) v = of_nat m"
    unfolding pos by (rule lin2(3) [OF blk m])
  have "(of_nat m :: int32) - DT_HTLIN = of_nat (m - 30)"
    using m30 by (simp add: DT_HTLIN_def)
  moreover have "unat (of_nat (m - 30) :: int32) = m - 30"
    using m31 by (simp add: unat_of_nat)
  ultimately have "unat (DT_LIN2WD (pos v) v) = (m - 30) div 6"
    by (simp add: DT_LIN2WD_def rel unat_div DT_WSIZE_def)
  then have wd: "unat (DT_LIN2WD (pos v) v) = m div 6 - 5"
    by presburger
  have bb: "unat blk < unat (DTU_TSIZE v)"
    using blk by (simp add: word_less_nat_alt)
  have "unat blk * unat ?b + unat ?b = Suc (unat blk) * unat ?b" by simp
  also have "\<dots> \<le> unat (DTU_TSIZE v) * unat ?b"
    using bb by (intro mult_le_mono1) simp
  finally have bnd: "unat blk * unat ?b + unat ?b \<le> length (filebuf v)"
    by (simp add: len geom(7))
  have l31: "length (filebuf v) < 2147483648"
    by (simp add: len geom(9))
  have ub: "unat (blk * ?b) = unat blk * unat ?b"
    using bnd l31 by (simp add: unat_word_ariths)
  have ua: "unat (blk * ?b + DT_LIN2WD (pos v) v) = unat blk * unat ?b + (m div 6 - 5)"
    using bnd l31 z by (simp add: unat_word_ariths ub wd)
  have "unat blk * unat ?b + (m div 6 - 5) < length (filebuf v)"
    using bnd z by linarith
  then show ?thesis
    using z by (simp add: rd_u_def ua raw_word_def)
qed

lemma word_index:
  assumes m: "m < unat (DTU_LPERB v)"
  shows "((of_nat (m div 6) :: int32) = 0) = (m div 6 = 0)"
    and "((of_nat (m div 6) :: int32) = 2 * DT_HTWRD + DTU_BSIZE v - 1) =
           (m div 6 = words_per_block v - 1)"
proof -
  have m31: "m < 2147483648" using m geom(2) [of v] by simp
  have u: "unat (of_nat (m div 6) :: int32) = m div 6" by (rule of_nat_div6(3) [OF m31])
  have l: "unat (2 * DT_HTWRD + DTU_BSIZE v - 1) = words_per_block v - 1"
    by (simp add: words_per_block_def DTU_BSIZE_def dt_consts D18_BSIZE_def D8_BSIZE_def)
  show "((of_nat (m div 6) :: int32) = 0) = (m div 6 = 0)"
    by (simp only: word_unat_eq_iff u) simp
  show "((of_nat (m div 6) :: int32) = 2 * DT_HTWRD + DTU_BSIZE v - 1) =
           (m div 6 = words_per_block v - 1)"
    by (simp only: word_unat_eq_iff u l)
qed

lemma svc_read_at:
  assumes len: "length (filebuf (units s k)) = unat (DTU_CAPAC (units s k))"
      and blk: "blk < DTU_TSIZE (units s k)"
      and m: "m < unat (DTU_LPERB (units s k))"
      and pos: "pos (units s k) = DT_BLK2LN blk (units s k) + of_nat m"
  shows "\<exists>s'. dt_svc_read s k FNC_RALL d blk (filebuf (units s k)) = Some s' \<and>
           units s' = (units s)(k := (units s k)\<lparr>timer := Some (now s + DT_WSIZE * dt_ltime s)\<rparr>) \<and>
           dt_ltime s' = dt_ltime s \<and> dev_dis s' = dev_dis s \<and>
           (m div 6 = 0 \<or> m div 6 = words_per_block (units s k) - 1 \<longrightarrow> dtsb s' = dtsb s) \<and>
           (\<not> (m div 6 = 0 \<or> m div 6 = words_per_block (units s k) - 1) \<longrightarrow>
              (dtsb s' = dtsb s OR DTB_DTF \<or> dtsb s' = dtsb s OR DTB_BEF) \<and>
              dtdb s' = (if d \<noteq> 0 then dt_comobv (raw_word (units s k) blk (m div 6))
                         else raw_word (units s k) blk (m div 6)))"
proof -
  let ?u = "units s k"
  define v where "v = ?u\<lparr>timer := Some (now s + DT_WSIZE * dt_ltime s)\<rparr>"
  define s1 where "s1 = sim_activate s k (DT_WSIZE * dt_ltime s)"
  have f: "u_8fmt v = u_8fmt ?u" and fb: "filebuf v = filebuf ?u" and pv: "pos v = pos ?u"
    by (simp_all add: v_def)
  note c = fmt_cong [OF f]
  have s1: "units s1 k = v" "units s1 = (units s)(k := v)" "dtsb s1 = dtsb s"
    "dt_ltime s1 = dt_ltime s" "dev_dis s1 = dev_dis s"
    by (simp_all add: s1_def v_def sim_activate_simps)
  have lenv: "length (filebuf v) = unat (DTU_CAPAC v)" using len by (simp add: fb c)
  have blkv: "blk < DTU_TSIZE v" using blk by (simp add: c)
  have mv: "m < unat (DTU_LPERB v)" using m by (simp add: c)
  have posv: "pos v = DT_BLK2LN blk v + of_nat m" using pos by (simp add: pv c)
  have m31: "m < 2147483648" using m geom(2) [of ?u] by simp
  have rel: "DT_LIN2OF (pos v) v = of_nat m"
    unfolding posv by (rule lin2(3) [OF blkv mv])
  note zone = unit_zone [OF mv]
  note wi = word_index [OF mv]
  note dv = of_nat_div6(1) [OF m31]
  have rw: "raw_word v blk (m div 6) = raw_word ?u blk (m div 6)"
    by (rule delivered_cong(1) [OF f fb])
  have wpb: "words_per_block v = unat (DTU_BSIZE v) + 10" by (rule wpb_val(1))
  show ?thesis
  proof (cases "5 \<le> m div 6 \<and> m div 6 < unat (DTU_BSIZE v) + 5")
    case True
    then have z: "5 \<le> m div 6" "m div 6 < unat (DTU_BSIZE v) + 5" by simp_all
    have nsil: "\<not> (m div 6 = 0 \<or> m div 6 = words_per_block ?u - 1)"
      using z wpb by (simp add: c)
    note rd = unit_data [OF lenv blkv mv posv z]
    have "dt_svc_read s k FNC_RALL d blk (filebuf ?u) =
            Some (dt_rev_dtdb d (s1\<lparr>dtdb := raw_word ?u blk (m div 6), dtsb := dtsb s1 OR DTB_DTF\<rparr>))"
      using True rd
      by (simp add: dt_svc_read_def Let_def s1_def [symmetric] s1(1) rel zone fb rw)
    then show ?thesis
      using nsil by (simp add: dt_rev_dtdb_def s1 v_def)
  next
    case False
    note h = dt_gethdr_word [OF lenv blkv m31]
    have nz: "(5 \<le> m div 6 \<and> m div 6 < unat (DTU_BSIZE v) + 5) = False"
      using False by simp
    have hw: "raw_word v blk (m div 6) = hdr_word v blk (m div 6)"
      using False by (auto simp add: raw_word_def)
    show ?thesis
    proof (cases "m div 6 = 0 \<or> m div 6 = words_per_block ?u - 1")
      case True
      then have "dt_svc_read s k FNC_RALL d blk (filebuf ?u) = Some s1"
        by (simp add: dt_svc_read_def Let_def s1_def [symmetric] s1(1) rel zone nz dv wi c(10))
      then show ?thesis
        using True by (simp add: s1 v_def)
    next
      case nsil: False
      then have "\<exists>fl. (fl = DTB_DTF \<or> fl = DTB_BEF) \<and>
            dt_svc_read s k FNC_RALL d blk (filebuf ?u) =
            Some (dt_rev_dtdb d (s1\<lparr>dtdb := raw_word ?u blk (m div 6), dtsb := dtsb s1 OR fl\<rparr>))"
        by (auto simp add: dt_svc_read_def Let_def s1_def [symmetric] s1(1) rel zone nz dv wi
            c(10) h hw [symmetric] rw fnc_consts)
      then show ?thesis
        using nsil by (auto simp add: dt_rev_dtdb_def s1 v_def)
    qed
  qed
qed

lemma flag_bits:
  "x AND (DTB_DTF OR DTB_BEF) = 0 \<Longrightarrow> x AND DTB_DTF = 0"
  "(x OR DTB_DTF) AND (DTB_DTF OR DTB_BEF) \<noteq> 0"
  "(x OR DTB_BEF) AND (DTB_DTF OR DTB_BEF) \<noteq> 0"
  "(y AND NOT (DTB_DTF OR DTB_BEF)) AND (DTB_DTF OR DTB_BEF) = 0"
proof -
  assume a: "x AND (DTB_DTF OR DTB_BEF) = 0"
  have "x AND DTB_DTF = (x AND (DTB_DTF OR DTB_BEF)) AND DTB_DTF"
    by (simp add: and.assoc word_ao_absorbs)
  then show "x AND DTB_DTF = 0" by (simp add: a)
next
  have "bit ((x OR DTB_DTF) AND (DTB_DTF OR DTB_BEF)) 17"
    by (simp add: bit_simps DTB_DTF_def DTB_BEF_def)
  then show "(x OR DTB_DTF) AND (DTB_DTF OR DTB_BEF) \<noteq> 0" by auto
next
  have "bit ((x OR DTB_BEF) AND (DTB_DTF OR DTB_BEF)) 16"
    by (simp add: bit_simps DTB_DTF_def DTB_BEF_def)
  then show "(x OR DTB_BEF) AND (DTB_DTF OR DTB_BEF) \<noteq> 0" by auto
next
  show "(y AND NOT (DTB_DTF OR DTB_BEF)) AND (DTB_DTF OR DTB_BEF) = 0"
    by (simp only: and.assoc bit.conj_cancel_left bit.conj_zero_right)
qed

lemma read_all_step_word:
  assumes inv: "read_all_at d p s k" and d: "d = 0 \<or> d = 1"
      and same: "filebuf (units s k) = filebuf u0" "u_8fmt (units s k) = u_8fmt u0"
      and len: "length (filebuf u0) = unat (DTU_CAPAC u0)" and blk: "blk < DTU_TSIZE u0"
      and m: "m < unat (DTU_LPERB u0)"
      and p: "p + (if d = 0 then 6 else - 6) = DT_BLK2LN blk u0 + of_nat m"
  shows "\<exists>s'. read_all_step s k = Some (delivered d u0 blk (m div 6), s') \<and>
              read_all_at d (DT_BLK2LN blk u0 + of_nat m) s' k \<and>
              filebuf (units s' k) = filebuf u0 \<and> u_8fmt (units s' k) = u_8fmt u0"
proof -
  let ?u = "units s k"
  let ?L = "dt_ltime s"
  define t where "t = LASTT ?u + DT_WSIZE * ?L"
  define p' where "p' = DT_BLK2LN blk u0 + of_nat m"
  define s0 where "s0 = (sim_cancel s k)\<lparr>now := t\<rparr>"
  define s1 where "s1 = upd_unit s0 k (\<lambda>u. u\<lparr>LASTT := now s0, pos := p'\<rparr>)"
  define u1 where "u1 = ?u\<lparr>timer := None, LASTT := t, pos := p'\<rparr>"
  from inv have i: "\<not> dev_dis s" "0 < unat ?L" "unat ?L * 6 < 2147483648"
    "dtsb s AND (DTB_DTF OR DTB_BEF) = 0" "DTS_GETMOT (STATE ?u) = DTS_ATSF OR d"
    "DTS_GETFNC (STATE ?u) = FNC_RALL" "pos ?u = p" "timer ?u = Some t"
    by (simp_all add: read_all_at_def Let_def t_def)
  have z0: "units s0 k = ?u\<lparr>timer := None\<rparr>" "now s0 = t" "dt_ltime s0 = ?L"
    by (simp_all add: s0_def sim_cancel_simps)
  have ev: "sim_event s k = dt_svc s0 k"
    by (simp add: sim_event_def i(8) s0_def)
  have f0: "u_8fmt (units s0 k) = u_8fmt u0" by (simp add: z0 same)
  have r: "unat p' < unat (DTU_FWDEZ (units s0 k))"
    unfolding p'_def fmt_cong(4) [OF f0] by (rule lin2(5) [OF blk m])
  have sp: "dt_setpos s0 k = Some (False, s1)"
    unfolding s1_def
  proof (rule setpos_word [where d = d])
    show "DTS_GETMOT (STATE (units s0 k)) = DTS_ATSF OR d" by (simp add: z0 i(5))
    show "d = 0 \<or> d = 1" by (rule d)
    show "now s0 - LASTT (units s0 k) = DT_WSIZE * dt_ltime s0" by (simp add: z0 t_def)
    show "0 < unat (dt_ltime s0)" by (simp add: z0 i(2))
    show "unat (dt_ltime s0) * 6 < 2147483648" by (simp add: z0 i(3))
    show "pos (units s0 k) + (if d = 0 then 6 else - 6) = p'"
      using p by (simp add: z0 i(7) p'_def)
    show "unat p' < unat (DTU_FWDEZ (units s0 k))" by (rule r)
  qed
  have z1: "units s1 k = u1" "units s1 = (units s)(k := u1)" "now s1 = t" "dt_ltime s1 = ?L"
    "dtsb s1 = dtsb s" "dev_dis s1 = dev_dis s"
    by (simp_all add: s1_def s0_def u1_def upd_unit_simps sim_cancel_simps)
  have f1: "u_8fmt u1 = u_8fmt u0" and fb1: "filebuf u1 = filebuf u0"
    and pu1: "pos u1 = p'" and st1: "STATE u1 = STATE ?u" and la1: "LASTT u1 = t"
    by (simp_all add: u1_def same)
  note c1 = fmt_cong [OF f1]
  have nez: "\<not> DT_QEZ u1"
    using lin2(4) [OF blk m] lin2(5) [OF blk m]
    by (simp add: DT_QEZ_def DT_QREZ_def DT_QFEZ_def pu1 c1 p'_def [symmetric] word_less_nat_alt
        word_le_nat_alt DT_EZLIN_def)
  have bl: "DT_LIN2BL (pos u1) u1 = blk"
    unfolding pu1 c1 p'_def by (rule lin2(2) [OF blk m])
  have md: "(DTS_ATSF OR d) AND DTS_DIR = d" "DTS_ATSF OR d \<noteq> DTS_DECF"
    "DTS_ATSF OR d \<noteq> DTS_DECR" "DTS_ATSF OR d \<noteq> DTS_ACCF" "DTS_ATSF OR d \<noteq> DTS_ACCR"
    "DTS_ATSF OR d = DTS_ATSF \<or> DTS_ATSF OR d = DTS_ATSR"
    using d by (auto simp add: mot_consts)
  have fbu: "filebuf u1 = filebuf ?u" by (simp add: u1_def)
  have svc: "dt_svc s0 k = dt_svc_fnc s1 k FNC_RALL d blk (filebuf u1)"
    using nez md(6)
    by (simp add: dt_svc_def Let_def z0 i(5) i(6) md(1-5) sp z1(1) bl fbu)
  have "dtsb s1 AND DTB_DTF = 0"
    using flag_bits(1) [OF i(4)] by (simp add: z1)
  then have fnc: "dt_svc_fnc s1 k FNC_RALL d blk (filebuf u1) =
      map_option DT_UPDINT (dt_svc_read s1 k FNC_RALL d blk (filebuf u1))"
    by (simp add: dt_svc_fnc_def fnc_consts mot_consts)
  have "\<exists>s'. dt_svc_read s1 k FNC_RALL d blk (filebuf (units s1 k)) = Some s' \<and>
           units s' = (units s1)(k := (units s1 k)\<lparr>timer := Some (now s1 + DT_WSIZE * dt_ltime s1)\<rparr>) \<and>
           dt_ltime s' = dt_ltime s1 \<and> dev_dis s' = dev_dis s1 \<and>
           (m div 6 = 0 \<or> m div 6 = words_per_block (units s1 k) - 1 \<longrightarrow> dtsb s' = dtsb s1) \<and>
           (\<not> (m div 6 = 0 \<or> m div 6 = words_per_block (units s1 k) - 1) \<longrightarrow>
              (dtsb s' = dtsb s1 OR DTB_DTF \<or> dtsb s' = dtsb s1 OR DTB_BEF) \<and>
              dtdb s' = (if d \<noteq> 0 then dt_comobv (raw_word (units s1 k) blk (m div 6))
                         else raw_word (units s1 k) blk (m div 6)))"
  proof (rule svc_read_at)
    show "length (filebuf (units s1 k)) = unat (DTU_CAPAC (units s1 k))"
      by (simp add: z1(1) fb1 c1 len)
    show "blk < DTU_TSIZE (units s1 k)" by (simp add: z1(1) c1 blk)
    show "m < unat (DTU_LPERB (units s1 k))" by (simp add: z1(1) c1 m)
    show "pos (units s1 k) = DT_BLK2LN blk (units s1 k) + of_nat m"
      by (simp add: z1(1) c1 pu1 p'_def)
  qed
  then obtain s2 where s2: "dt_svc_read s1 k FNC_RALL d blk (filebuf u1) = Some s2"
      "units s2 = (units s)(k := u1\<lparr>timer := Some (t + DT_WSIZE * ?L)\<rparr>)"
      "dt_ltime s2 = ?L" "dev_dis s2 = dev_dis s"
      "m div 6 = 0 \<or> m div 6 = words_per_block u0 - 1 \<longrightarrow> dtsb s2 = dtsb s"
      "\<not> (m div 6 = 0 \<or> m div 6 = words_per_block u0 - 1) \<longrightarrow>
         (dtsb s2 = dtsb s OR DTB_DTF \<or> dtsb s2 = dtsb s OR DTB_BEF) \<and>
         dtdb s2 = (if d \<noteq> 0 then dt_comobv (raw_word u0 blk (m div 6))
                    else raw_word u0 blk (m div 6))"
    by (auto simp add: z1 c1(10) delivered_cong(1) [OF f1 fb1])
  define s3 where "s3 = DT_UPDINT s2"
  have e3: "sim_event s k = Some s3"
    by (simp add: ev svc fnc s2(1) s3_def)
  have z3: "units s3 k = u1\<lparr>timer := Some (t + DT_WSIZE * ?L)\<rparr>" "dt_ltime s3 = ?L"
    "dev_dis s3 = dev_dis s" "dtsb s3 = dtsb s2" "dtdb s3 = dtdb s2"
    by (simp_all add: s3_def DT_UPDINT_simps s2)
  have u3: "\<not> dev_dis s3" "0 < unat (dt_ltime s3)" "unat (dt_ltime s3) * 6 < 2147483648"
    "DTS_GETMOT (STATE (units s3 k)) = DTS_ATSF OR d" "DTS_GETFNC (STATE (units s3 k)) = FNC_RALL"
    "pos (units s3 k) = p'"
    "timer (units s3 k) = Some (LASTT (units s3 k) + DT_WSIZE * dt_ltime s3)"
    "filebuf (units s3 k) = filebuf u0" "u_8fmt (units s3 k) = u_8fmt u0"
    by (simp_all add: z3 i st1 pu1 la1 fb1 f1)
  show ?thesis
  proof (cases "m div 6 = 0 \<or> m div 6 = words_per_block u0 - 1")
    case True
    then have b: "dtsb s3 = dtsb s" using s2(5) by (simp add: z3)
    have "read_all_step s k = Some ([], s3)"
      by (simp add: read_all_step_def e3 b i(4))
    moreover have "delivered d u0 blk (m div 6) = []"
      using True by (simp add: delivered_def)
    moreover have "read_all_at d p' s3 k"
      by (simp add: read_all_at_def Let_def u3 b i(4))
    ultimately show ?thesis
      by (simp add: u3 p'_def [symmetric])
  next
    case False
    then have b: "dtsb s3 = dtsb s OR DTB_DTF \<or> dtsb s3 = dtsb s OR DTB_BEF"
      and w: "dtdb s3 = (if d \<noteq> 0 then dt_comobv (raw_word u0 blk (m div 6))
                         else raw_word u0 blk (m div 6))"
      using s2(6) by (simp_all add: z3)
    have nz: "dtsb s3 AND (DTB_DTF OR DTB_BEF) \<noteq> 0"
      using b flag_bits(2,3) [of "dtsb s"] by auto
    define s4 where "s4 = DT_UPDINT (s3\<lparr>dtsb := dtsb s3 AND NOT (DTB_DTF OR DTB_BEF)\<rparr>)"
    have rd: "dt s3 0x140 0 = Some (dtdb s3, s4)"
      using u3(1) by (simp add: dt_def Let_def s4_def)
    have "read_all_step s k = Some ([dtdb s3], s4)"
      using nz by (simp add: read_all_step_def e3 rd)
    moreover have "delivered d u0 blk (m div 6) = [dtdb s3]"
      using False by (simp add: delivered_def w)
    moreover have z4: "units s4 = units s3" "dt_ltime s4 = dt_ltime s3" "dev_dis s4 = dev_dis s3"
      by (simp_all add: s4_def DT_UPDINT_simps)
    moreover have "dtsb s4 = (dtsb s3 AND NOT (DTB_DTF OR DTB_BEF))"
      by (simp add: s4_def DT_UPDINT_simps)
    then have b4: "dtsb s4 AND (DTB_DTF OR DTB_BEF) = 0"
      by (simp only: flag_bits(4))
    have "read_all_at d p' s4 k"
      by (simp add: read_all_at_def Let_def z4 u3 b4)
    ultimately show ?thesis
      by (simp add: u3 p'_def [symmetric])
  qed
qed

lemma run_fwd:
  assumes len: "length (filebuf u0) = unat (DTU_CAPAC u0)" and blk: "blk < DTU_TSIZE u0"
  shows "read_all_at 0 (DT_BLK2LN blk u0 + of_nat (6 * j) - 1) s k \<Longrightarrow>
         filebuf (units s k) = filebuf u0 \<Longrightarrow> u_8fmt (units s k) = u_8fmt u0 \<Longrightarrow>
         j + n \<le> words_per_block u0 \<Longrightarrow>
         \<exists>s'. read_all_run n s k = Some (concat (map (delivered 0 u0 blk) [j..<j + n]), s')"
proof (induction n arbitrary: j s)
  case 0
  then show ?case by simp
next
  case (Suc n)
  let ?m = "6 * j + 5"
  have m: "?m < unat (DTU_LPERB u0)"
    using Suc.prems(4) wpb_val(2) [of u0] by linarith
  have p: "DT_BLK2LN blk u0 + of_nat (6 * j) - 1 + (if (0::int32) = 0 then 6 else - 6) =
             DT_BLK2LN blk u0 + of_nat ?m"
    by simp
  have dv: "?m div 6 = j" by presburger
  from read_all_step_word [OF Suc.prems(1) _ Suc.prems(2,3) len blk m p]
  obtain s1 where s1: "read_all_step s k = Some (delivered 0 u0 blk j, s1)"
      "read_all_at 0 (DT_BLK2LN blk u0 + of_nat ?m) s1 k"
      "filebuf (units s1 k) = filebuf u0" "u_8fmt (units s1 k) = u_8fmt u0"
    by (auto simp only: dv)
  have "DT_BLK2LN blk u0 + of_nat ?m = DT_BLK2LN blk u0 + of_nat (6 * Suc j) - 1"
    by simp
  with s1(2) have inv: "read_all_at 0 (DT_BLK2LN blk u0 + of_nat (6 * Suc j) - 1) s1 k"
    by (simp only:)
  have "Suc j + n \<le> words_per_block u0" using Suc.prems(4) by simp
  from Suc.IH [OF inv s1(3,4) this]
  obtain s' where s': "read_all_run n s1 k =
      Some (concat (map (delivered 0 u0 blk) [Suc j..<Suc j + n]), s')" ..
  have "[j..<j + Suc n] = j # [Suc j..<Suc j + n]"
    by (simp add: upt_conv_Cons)
  then show ?case
    by (simp add: s1(1) s')
qed

lemma run_rev:
  assumes len: "length (filebuf u0) = unat (DTU_CAPAC u0)" and blk: "blk < DTU_TSIZE u0"
  shows "read_all_at 1 (DT_BLK2LN blk u0 + of_nat (6 * j)) s k \<Longrightarrow>
         filebuf (units s k) = filebuf u0 \<Longrightarrow> u_8fmt (units s k) = u_8fmt u0 \<Longrightarrow>
         n \<le> j \<Longrightarrow> j \<le> words_per_block u0 \<Longrightarrow>
         \<exists>s'. read_all_run n s k = Some (concat (map (delivered 1 u0 blk) (rev [j - n..<j])), s')"
proof (induction n arbitrary: j s)
  case 0
  then show ?case by simp
next
  case (Suc n)
  from Suc.prems(4) obtain i where j: "j = Suc i"
    by (cases j) simp_all
  let ?m = "6 * i"
  have m: "?m < unat (DTU_LPERB u0)"
    using Suc.prems(5) wpb_val(2) [of u0] j by linarith
  have p: "DT_BLK2LN blk u0 + of_nat (6 * j) + (if (1::int32) = 0 then 6 else - 6) =
             DT_BLK2LN blk u0 + of_nat ?m"
    by (simp add: j)
  have dv: "?m div 6 = i" by simp
  from read_all_step_word [OF Suc.prems(1) _ Suc.prems(2,3) len blk m p]
  obtain s1 where s1: "read_all_step s k = Some (delivered 1 u0 blk i, s1)"
      "read_all_at 1 (DT_BLK2LN blk u0 + of_nat ?m) s1 k"
      "filebuf (units s1 k) = filebuf u0" "u_8fmt (units s1 k) = u_8fmt u0"
    by (auto simp only: dv)
  have "n \<le> i" "i \<le> words_per_block u0" using Suc.prems(4,5) j by simp_all
  from Suc.IH [OF s1(2,3,4) this]
  obtain s' where s': "read_all_run n s1 k =
      Some (concat (map (delivered 1 u0 blk) (rev [i - n..<i])), s')" ..
  have "rev [j - Suc n..<j] = i # rev [i - n..<i]"
    by (simp add: j)
  then show ?case
    by (simp add: s1(1) s')
qed

lemma concat_singletons:
  "(\<And>x. x \<in> set xs \<Longrightarrow> f x = [g x]) \<Longrightarrow> concat (map f xs) = map g xs"
  by (induction xs) simp_all

lemma pass_words:
  assumes W: "W = words_per_block u0"
  shows "concat (map (delivered d u0 blk) [0..<W]) =
           map (\<lambda>w. if d \<noteq> 0 then dt_comobv (raw_word u0 blk w) else raw_word u0 blk w) [1..<W - 1]"
    and "concat (map (delivered d u0 blk) (rev [0..<W])) =
           map (\<lambda>w. if d \<noteq> 0 then dt_comobv (raw_word u0 blk w) else raw_word u0 blk w)
             (rev [1..<W - 1])"
proof -
  let ?g = "\<lambda>w. if d \<noteq> 0 then dt_comobv (raw_word u0 blk w) else raw_word u0 blk w"
  have W2: "2 \<le> W" using W wpb_val(1) [of u0] by simp
  then obtain V where V: "W = Suc V" "1 \<le> V"
    by (cases W) simp_all
  have WV: "W - 1 = V" using V by simp
  have sp: "[0..<W] = 0 # [Suc 0..<V] @ [V]"
    using V by (simp add: upt_conv_Cons)
  have e0: "delivered d u0 blk 0 = []" "delivered d u0 blk V = []"
    using WV by (simp_all add: delivered_def W [symmetric])
  have mid: "\<And>x. x \<in> set [Suc 0..<V] \<Longrightarrow> delivered d u0 blk x = [?g x]"
    using WV by (auto simp add: delivered_def W [symmetric])
  have mid': "\<And>x. x \<in> set (rev [Suc 0..<V]) \<Longrightarrow> delivered d u0 blk x = [?g x]"
    using WV by (auto simp add: delivered_def W [symmetric])
  have c1: "concat (map (delivered d u0 blk) [Suc 0..<V]) = map ?g [Suc 0..<V]"
    by (rule concat_singletons) (rule mid)
  have c2: "concat (map (delivered d u0 blk) (rev [Suc 0..<V])) = map ?g (rev [Suc 0..<V])"
    by (rule concat_singletons) (rule mid')
  show "concat (map (delivered d u0 blk) [0..<W]) = map ?g [1..<W - 1]"
    unfolding WV sp by (simp add: e0 c1)
  show "concat (map (delivered d u0 blk) (rev [0..<W])) = map ?g (rev [1..<W - 1])"
    unfolding WV sp using c2 by (simp add: e0 rev_map)
qed

text \<open>
  Claim C2. Take a block \<open>blk\<close> of the tape of an attached unit (its image holds the
  unit's capacity), and two read all passes over the block at speed, on the same
  image: a forward pass that starts on the last line before the block, and a reverse
  pass that starts on the first line after the block. Each pass is followed for as
  many word times as the block has words, the host reading the data buffer whenever a
  flag is raised. Then both passes run to their end without a fault, the forward pass
  delivers every word of the block but the first and the last, and the words delivered
  by the reverse pass are those of the forward pass in reverse order, each one
  complement obversed.
\<close>

theorem dt_read_all_reverse:
  assumes "length (filebuf (units sf k)) = unat (DTU_CAPAC (units sf k))"
      and "blk < DTU_TSIZE (units sf k)"
      and "filebuf (units sr k) = filebuf (units sf k)"
      and "u_8fmt (units sr k) = u_8fmt (units sf k)"
      and "read_all_at 0 (DT_BLK2LN blk (units sf k) - 1) sf k"
      and "read_all_at 1 (DT_BLK2LN (blk + 1) (units sf k)) sr k"
  shows "\<exists>wf wr sf' sr'.
           read_all_run (words_per_block (units sf k)) sf k = Some (wf, sf') \<and>
           read_all_run (words_per_block (units sf k)) sr k = Some (wr, sr') \<and>
           length wf = words_per_block (units sf k) - 2 \<and>
           wr = map dt_comobv (rev wf)"
proof -
  let ?u = "units sf k"
  let ?W = "words_per_block ?u"
  have f0: "read_all_at 0 (DT_BLK2LN blk ?u + of_nat (6 * 0) - 1) sf k"
    using assms(5) by simp
  have "(of_nat (6 * ?W) :: int32) = DTU_LPERB ?u"
    by (simp only: wpb_val(2)) simp
  then have "DT_BLK2LN (blk + 1) ?u = DT_BLK2LN blk ?u + of_nat (6 * ?W)"
    by (simp only: DT_BLK2LN_def) (simp add: algebra_simps)
  with assms(6) have r0: "read_all_at 1 (DT_BLK2LN blk ?u + of_nat (6 * ?W)) sr k"
    by (simp only:)
  from run_fwd [OF assms(1,2) f0 refl refl, of ?W]
  obtain sf' where F: "read_all_run ?W sf k =
      Some (concat (map (delivered 0 ?u blk) [0..<?W]), sf')"
    by auto
  from run_rev [OF assms(1,2) r0 assms(3,4) order_refl order_refl]
  obtain sr' where R: "read_all_run ?W sr k =
      Some (concat (map (delivered 1 ?u blk) (rev [0..<?W])), sr')"
    by auto
  have "map (\<lambda>w. dt_comobv (raw_word ?u blk w)) (rev [1..<?W - 1]) =
          map dt_comobv (rev (map (raw_word ?u blk) [1..<?W - 1]))"
    by (simp add: rev_map)
  then show ?thesis
    by (simp add: F R pass_words [OF refl])
qed

theorem dt_read_all_reverse_witness:
  "\<exists>wf wr sf' sr'.
     read_all_run 266 rall_fwd_state 1 = Some (wf, sf') \<and>
     read_all_run 266 rall_rev_state 1 = Some (wr, sr') \<and>
     length wf = 264 \<and> wr = map dt_comobv (rev wf)"
  using dt_read_all_reverse [of rall_fwd_state 1 3 rall_rev_state]
  by (simp add: rall_fwd_state_def rall_rev_state_def dt_states read_all_at_def Let_def
      DTU_CAPAC_def DTU_TSIZE_def DTU_LPERB_def DTU_BSIZE_def dt_consts D18_TSIZE_def
      D18_BSIZE_def DT_BLK2LN_def DT_EZLIN_def DT_WSIZE_def words_per_block_def
      DTS_GETMOT_def DTS_GETFNC_def DTS_V_MOT_def DTS_M_MOT_def DTS_V_FNC_def DTS_M_FNC_def
      DTB_DTF_def DTB_BEF_def mot_consts fnc_consts)

section \<open>The range of the position\<close>


lemma unit_stepI:
  "u_8fmt u' = u_8fmt u \<Longrightarrow> u_att u' = u_att u \<Longrightarrow> pos u' = pos u \<Longrightarrow> unit_step u u'"
  by (simp add: unit_step_def)




lemma kept_refl: "kept s s k"
  by (simp add: kept_def)





































end
